theory Spec2Isabelle
  imports Main "HOL-Library.AList"
begin

section \<open>Strings and the Qt string primitives used by FolderKeeper.cpp\<close>

text \<open>
  A \<open>QString\<close> is a \<open>string\<close> (a list of characters). Case-insensitive comparison
  (\<open>Qt::CaseInsensitive\<close>, \<open>QRegularExpression::CaseInsensitiveOption\<close>) is comparison after
  \<open>toLower\<close>; the case mapping is that of the ASCII letters, every other character is its
  own lower case. The digit class \<open>\d\<close> of \<open>QRegularExpression\<close> is the ten ASCII digits
  (the option \<open>UseUnicodePropertiesOption\<close> is not set in the source).
\<close>

definition is_digit :: "char \<Rightarrow> bool" where
  "is_digit c = (c \<in> set ''0123456789'')"

definition toLower_char :: "char \<Rightarrow> char" where
  "toLower_char c =
     (case map_of (zip ''ABCDEFGHIJKLMNOPQRSTUVWXYZ'' ''abcdefghijklmnopqrstuvwxyz'') c of
        None \<Rightarrow> c
      | Some d \<Rightarrow> d)"

definition toLower :: "string \<Rightarrow> string" where
  "toLower s = map toLower_char s"

text \<open>The line feed: the \<open>$\<close> of a regular expression also matches just before a line feed
  that is the last character of the subject.\<close>

definition LF :: char where
  "LF = CHR 0x0A"

text \<open>\<open>QString::right(n)\<close>: the \<open>n\<close> rightmost characters; the whole string when \<open>n\<close> is
  negative or not smaller than the size.\<close>

definition QString_right :: "string \<Rightarrow> int \<Rightarrow> string" where
  "QString_right s n =
     (if n < 0 \<or> int (length s) \<le> n then s else drop (length s - nat n) s)"

text \<open>\<open>QString::contains(QRegularExpression("META-INF"))\<close> and the like, for a pattern
  without metacharacters: the pattern occurs as a contiguous part of the string.\<close>

fun contains :: "string \<Rightarrow> string \<Rightarrow> bool" where
  "contains [] pat = (pat = [])"
| "contains (c # cs) pat = (take (length pat) (c # cs) = pat \<or> contains cs pat)"

text \<open>\<open>QStringList::contains(str, Qt::CaseInsensitive)\<close>.\<close>

definition contains_CaseInsensitive :: "string list \<Rightarrow> string \<Rightarrow> bool" where
  "contains_CaseInsensitive names str = (toLower str \<in> set (map toLower names))"

subsection \<open>QFileInfo\<close>

text \<open>
  The parts of a path as \<open>QFileInfo\<close> gives them, for a path that uses \<open>/\<close> as its
  separator: the file name is what follows the last separator, the base name is the file
  name up to its first dot, the complete suffix what follows the first dot, the suffix what
  follows the last dot. \<open>absolutePath\<close> is given for an absolute path without \<open>.\<close> and
  \<open>..\<close> components: the path without its file name and without the separator in front of it,
  the root directory for a file directly under it.
\<close>

definition QFileInfo_fileName :: "string \<Rightarrow> string" where
  "QFileInfo_fileName path = rev (takeWhile (\<lambda>c. c \<noteq> CHR ''/'') (rev path))"

definition QFileInfo_baseName :: "string \<Rightarrow> string" where
  "QFileInfo_baseName path = takeWhile (\<lambda>c. c \<noteq> CHR ''.'') (QFileInfo_fileName path)"

definition QFileInfo_completeSuffix :: "string \<Rightarrow> string" where
  "QFileInfo_completeSuffix path =
     drop 1 (dropWhile (\<lambda>c. c \<noteq> CHR ''.'') (QFileInfo_fileName path))"

definition QFileInfo_suffix :: "string \<Rightarrow> string" where
  "QFileInfo_suffix path =
     (let name = QFileInfo_fileName path
      in if CHR ''.'' \<in> set name then rev (takeWhile (\<lambda>c. c \<noteq> CHR ''.'') (rev name)) else [])"

definition QFileInfo_absolutePath :: "string \<Rightarrow> string" where
  "QFileInfo_absolutePath path =
     (let dir = rev (drop 1 (dropWhile (\<lambda>c. c \<noteq> CHR ''/'') (rev path)))
      in if dir = [] then ''/'' else dir)"

subsection \<open>Decimal numbers\<close>

text \<open>The decimal digit of a number below ten, and the number a decimal digit stands
  for (its position among the ten digits).\<close>

definition digit_char :: "nat \<Rightarrow> char" where
  "digit_char d = ''0123456789'' ! d"

definition digit_value :: "char \<Rightarrow> nat" where
  "digit_value c = length (takeWhile (\<lambda>d. d \<noteq> c) ''0123456789'')"

fun digits_of :: "nat \<Rightarrow> string" where
  "digits_of n =
     (if n < 10 then [digit_char n] else digits_of (n div 10) @ [digit_char (n mod 10)])"

declare digits_of.simps [simp del]

definition dec_value :: "string \<Rightarrow> nat" where
  "dec_value s = foldl (\<lambda>n c. 10 * n + digit_value c) 0 s"

text \<open>The C++ type \<open>int\<close> has 32 bits. \<open>INT_MAX\<close> is its largest value, and \<open>int32_wrap\<close>
  brings the result of an addition back into the range, as the two's complement machine
  addition does.\<close>

definition INT_MAX :: int where
  "INT_MAX = 2147483647"

definition int32_wrap :: "int \<Rightarrow> int" where
  "int32_wrap x = (x + 2147483648) mod 4294967296 - 2147483648"

text \<open>\<open>QString::toInt(&ok)\<close> on the text captured by \<open>(\d*)\<close>: the conversion fails
  (\<open>None\<close>) on the empty string and on a number that does not fit an \<open>int\<close>.\<close>

definition captured_toInt :: "string \<Rightarrow> int option" where
  "captured_toInt s =
     (if s \<noteq> [] \<and> list_all is_digit s \<and> int (dec_value s) \<le> INT_MAX
      then Some (int (dec_value s)) else None)"

text \<open>\<open>QString("%1").arg(a, fieldWidth, 10, QChar('0'))\<close>: the decimal digits of \<open>a\<close>,
  filled with zeros on the left up to \<open>fieldWidth\<close> characters; the sign of a negative
  number stands first and counts for the width.\<close>

definition QString_arg :: "int \<Rightarrow> int \<Rightarrow> string" where
  "QString_arg a fieldWidth =
     (let sign = (if a < 0 then ''-'' else []);
          digs = digits_of (nat \<bar>a\<bar>)
      in sign @ replicate (nat fieldWidth - length sign - length digs) (CHR ''0'') @ digs)"

section \<open>The unique name allocator\<close>

text \<open>
  \<open>QString::remove(QRegularExpression("\\d+$"))\<close>: the run of digits at the end of the
  string is removed; when the string ends with a line feed, the run of digits in front of
  that line feed is removed instead.
\<close>

definition strip_digits :: "string \<Rightarrow> string" where
  "strip_digits s = rev (dropWhile is_digit (rev s))"

definition remove_digits_at_end :: "string \<Rightarrow> string" where
  "remove_digits_at_end s =
     (if s \<noteq> [] \<and> last s = LF \<and> strip_digits (butlast s) \<noteq> butlast s
      then strip_digits (butlast s) @ [LF]
      else strip_digits s)"

text \<open>
  The match of \<open>filename_search\<close>, the regular expression
  \<open>^name_prefix(\d*)\.extension$\<close> (without \<open>\.extension\<close> when the extension is empty),
  case-insensitive, with prefix and extension escaped: \<open>None\<close> when \<open>existing_file\<close> does
  not match, the text of the capture group otherwise.
\<close>

definition filename_search :: "string \<Rightarrow> string \<Rightarrow> string \<Rightarrow> string option" where
  "filename_search name_prefix extension existing_file =
     (let n = length name_prefix;
          rest = drop n existing_file;
          tail = (if extension \<noteq> [] then CHR ''.'' # extension else [])
      in if toLower (take n existing_file) = toLower name_prefix \<and>
            (toLower (dropWhile is_digit rest) = toLower tail \<or>
             toLower (dropWhile is_digit rest) = toLower tail @ [LF])
         then Some (takeWhile is_digit rest)
         else None)"

text \<open>The loop over the existing file names (lines 272 to 287): the state is the pair
  \<open>(max_num, max_num_length)\<close>.\<close>

fun scan_filenames :: "string \<Rightarrow> string \<Rightarrow> string list \<Rightarrow> int \<times> int \<Rightarrow> int \<times> int" where
  "scan_filenames name_prefix extension [] (max_num, max_num_length) =
     (max_num, max_num_length)"
| "scan_filenames name_prefix extension (existing_file # filenames) (max_num, max_num_length) =
     (case filename_search name_prefix extension existing_file of
        None \<Rightarrow> scan_filenames name_prefix extension filenames (max_num, max_num_length)
      | Some captured \<Rightarrow>
          (case captured_toInt captured of
             None \<Rightarrow> scan_filenames name_prefix extension filenames (max_num, max_num_length)
           | Some number_suffix \<Rightarrow>
               if number_suffix > max_num
               then scan_filenames name_prefix extension filenames
                      (number_suffix, int (length captured))
               else scan_filenames name_prefix extension filenames
                      (max_num, max_num_length)))"

text \<open>The body of \<open>FolderKeeper::GetUniqueFilenameVersion\<close>, for the list \<open>filenames\<close> that
  \<open>GetAllFilenames\<close> returned.\<close>

definition UniqueFilenameVersion :: "string list \<Rightarrow> string \<Rightarrow> string" where
  "UniqueFilenameVersion filenames filename =
     (if \<not> contains_CaseInsensitive filenames filename then filename
      else
        let name_prefix = remove_digits_at_end (QFileInfo_baseName filename);
            extension = QFileInfo_completeSuffix filename;
            (max_num0, max_num_length0) =
               scan_filenames name_prefix extension filenames (- 1, - 1);
            (max_num, max_num_length) =
               (if max_num0 = - 1 then (0, 4) else (max_num0, max_num_length0));
            new_name = name_prefix @ QString_arg (int32_wrap (max_num + 1)) max_num_length
        in new_name @ (if extension \<noteq> [] then ''.'' @ extension else []))"


section \<open>Resources and the media type tables\<close>

text \<open>
  Modelled from the spec: the class \<open>Resource\<close> and its subclasses (\<open>ResourceObjects/\<close>) are
  not part of the file. A resource has a stable unique identifier assigned at creation, the
  folder of the book it belongs to, a full path that changes only by a rename, a kind, an
  EPUB version, a media type and a longest common path. Its book path is derived from the
  full path minus the package root, its file name from the full path.
\<close>

datatype ResourceType =
    GenericResourceType | MiscTextResourceType | AudioResourceType | VideoResourceType
  | ImageResourceType | SVGResourceType | FontResourceType | HTMLResourceType
  | CSSResourceType | XMLResourceType | OPFResourceType | NCXResourceType

record Resource =
  m_Identifier :: string
  m_MainFolder :: string
  m_FullFilePath :: string
  m_Type :: ResourceType
  m_EpubVersion :: string
  m_MediaType :: string
  m_LCP :: string

definition GetIdentifier :: "Resource \<Rightarrow> string" where
  "GetIdentifier r = m_Identifier r"

definition GetFullPath :: "Resource \<Rightarrow> string" where
  "GetFullPath r = m_FullFilePath r"

definition Filename :: "Resource \<Rightarrow> string" where
  "Filename r = QFileInfo_fileName (m_FullFilePath r)"

definition GetRelativePath :: "Resource \<Rightarrow> string" where
  "GetRelativePath r =
     QString_right (m_FullFilePath r)
       (int (length (m_FullFilePath r)) - int (length (m_MainFolder r)) - 1)"

text \<open>The constructor \<open>Resource(mainfolder, fullfilepath)\<close> of the class and of its
  subclasses: \<open>uuid\<close> is the identifier the constructor draws.\<close>

definition new_Resource :: "ResourceType \<Rightarrow> string \<Rightarrow> string \<Rightarrow> string \<Rightarrow> Resource" where
  "new_Resource type uuid mainfolder fullfilepath =
     \<lparr>m_Identifier = uuid, m_MainFolder = mainfolder, m_FullFilePath = fullfilepath,
      m_Type = type, m_EpubVersion = [], m_MediaType = [], m_LCP = []\<rparr>"

text \<open>
  Modelled from the spec: the media classification table (\<open>Misc/MediaTypes\<close>) is not part
  of the file. It resolves an extension to a media type, and a media type to a group and
  to a resource kind descriptor; each lookup returns the given fallback for an unknown key.
\<close>

record MediaTypes =
  m_ExtToMType :: "(string \<times> string) list"
  m_MTypeToGroup :: "(string \<times> string) list"
  m_MTypeToRDesc :: "(string \<times> string) list"

text \<open>\<open>QHash::value(key, defaultValue)\<close>, and \<open>QHash::operator[]\<close> of a hash that is not
  \<open>const\<close>, which inserts the default value under a key that is absent. A \<open>QHash\<close> is an
  association list with \<open>AList.update\<close> for an assignment and \<open>AList.delete\<close> for
  \<open>remove\<close>; the order of the list stands for the iteration order of the hash, which Qt
  leaves open.\<close>

definition QHash_value :: "('k \<times> 'v) list \<Rightarrow> 'k \<Rightarrow> 'v \<Rightarrow> 'v" where
  "QHash_value h key defaultValue = (case map_of h key of None \<Rightarrow> defaultValue | Some v \<Rightarrow> v)"

definition QHash_subscript :: "('k \<times> 'v) list \<Rightarrow> 'k \<Rightarrow> 'v \<Rightarrow> 'v \<times> ('k \<times> 'v) list" where
  "QHash_subscript h key defaultValue =
     (case map_of h key of
        None \<Rightarrow> (defaultValue, AList.update key defaultValue h)
      | Some v \<Rightarrow> (v, h))"

definition GetMediaTypeFromExtension :: "MediaTypes \<Rightarrow> string \<Rightarrow> string \<Rightarrow> string" where
  "GetMediaTypeFromExtension MTMaps extension fallback =
     QHash_value (m_ExtToMType MTMaps) extension fallback"

definition GetGroupFromMediaType :: "MediaTypes \<Rightarrow> string \<Rightarrow> string \<Rightarrow> string" where
  "GetGroupFromMediaType MTMaps media_type fallback =
     QHash_value (m_MTypeToGroup MTMaps) media_type fallback"

definition GetResourceDescFromMediaType :: "MediaTypes \<Rightarrow> string \<Rightarrow> string \<Rightarrow> string" where
  "GetResourceDescFromMediaType MTMaps media_type fallback =
     QHash_value (m_MTypeToRDesc MTMaps) media_type fallback"

section \<open>The state of a FolderKeeper\<close>

text \<open>
  The resource objects live in a store, \<open>heap\<close>: a \<open>Resource *\<close> is the index of the object
  in it, \<open>new\<close> appends an object, and nothing in the file destroys one (a resource is
  destroyed by its own \<open>Delete\<close>, after it has told the keeper). \<open>m_Resources\<close> only ever
  receives the result of a \<open>new\<close>, so its values are indices; \<open>m_Path2Resource\<close> can hold
  the null pointer, \<open>None\<close>. The file system watcher is the list that
  \<open>QFileSystemWatcher::files()\<close> returns. The files on disk are not part of the state: an
  operation that asks whether a file exists takes the answer as the function \<open>exists\<close>.
  The signals the keeper emits and what the manifest does with them are outside the model.
\<close>

record FolderKeeper =
  heap :: "Resource list"
  m_OPF :: "nat option"
  m_NCX :: "nat option"
  m_Resources :: "(string \<times> nat) list"
  m_Path2Resource :: "(string \<times> nat option) list"
  m_FSWatcher :: "string list"
  m_SuspendedWatchedFiles :: "string list"
  m_KeyToLCP :: "(string \<times> string) list"
  m_FullPathToMainFolder :: string
  m_FullPathToMetaInfFolder :: string
  m_FullPathToOEBPSFolder :: string
  m_FullPathToAudioFolder :: string
  m_FullPathToVideoFolder :: string
  m_FullPathToImagesFolder :: string
  m_FullPathToFontsFolder :: string
  m_FullPathToTextFolder :: string
  m_FullPathToStylesFolder :: string
  m_FullPathToMiscFolder :: string

datatype error =
    FileDoesNotExist string
  | ResourceDoesNotExist string
  | NullPointer

definition IMAGE_FOLDER_NAME :: string where "IMAGE_FOLDER_NAME = ''Images''"
definition FONT_FOLDER_NAME :: string where "FONT_FOLDER_NAME = ''Fonts''"
definition TEXT_FOLDER_NAME :: string where "TEXT_FOLDER_NAME = ''Text''"
definition STYLE_FOLDER_NAME :: string where "STYLE_FOLDER_NAME = ''Styles''"
definition AUDIO_FOLDER_NAME :: string where "AUDIO_FOLDER_NAME = ''Audio''"
definition VIDEO_FOLDER_NAME :: string where "VIDEO_FOLDER_NAME = ''Video''"
definition MISC_FOLDER_NAME :: string where "MISC_FOLDER_NAME = ''Misc''"
definition OPF_FILE_NAME :: string where "OPF_FILE_NAME = ''content.opf''"
definition NCX_FILE_NAME :: string where "NCX_FILE_NAME = ''toc.ncx''"
definition FILE_EXCEPTIONS :: string where "FILE_EXCEPTIONS = ''META-INF''"

subsection \<open>Construction\<close>

definition CreateKeyToLCPMap :: "FolderKeeper \<Rightarrow> FolderKeeper" where
  "CreateKeyToLCPMap s =
     (if m_KeyToLCP s \<noteq> [] then s
      else
        let main = m_FullPathToMainFolder s
        in s\<lparr>m_KeyToLCP :=
             [(''text'', main @ ''/OEBPS/Text/''),
              (''styles'', main @ ''/OEBPS/Styles/''),
              (''images'', main @ ''/OEBPS/Images/''),
              (''fonts'', main @ ''/OEBPS/Fonts/''),
              (''audio'', main @ ''/OEBPS/Audio/''),
              (''video'', main @ ''/OEBPS/Video/''),
              (''misc'', main @ ''/OEBPS/Misc/''),
              (''ncx'', main @ ''/OEBPS/''),
              (''opf'', main @ ''/OEBPS/''),
              (''other'', main @ ''/'')]\<rparr>)"

definition CreateFolderStructure :: "FolderKeeper \<Rightarrow> FolderKeeper" where
  "CreateFolderStructure s =
     (let main = m_FullPathToMainFolder s;
          oebps = main @ ''/OEBPS''
      in s\<lparr>m_FullPathToMetaInfFolder := main @ ''/META-INF'',
            m_FullPathToOEBPSFolder := oebps,
            m_FullPathToAudioFolder := oebps @ ''/'' @ AUDIO_FOLDER_NAME,
            m_FullPathToVideoFolder := oebps @ ''/'' @ VIDEO_FOLDER_NAME,
            m_FullPathToImagesFolder := oebps @ ''/'' @ IMAGE_FOLDER_NAME,
            m_FullPathToFontsFolder := oebps @ ''/'' @ FONT_FOLDER_NAME,
            m_FullPathToTextFolder := oebps @ ''/'' @ TEXT_FOLDER_NAME,
            m_FullPathToStylesFolder := oebps @ ''/'' @ STYLE_FOLDER_NAME,
            m_FullPathToMiscFolder := oebps @ ''/'' @ MISC_FOLDER_NAME\<rparr>)"

text \<open>\<open>version\<close> is the default version of the settings store, \<open>uuid\<close> the identifier of
  the new OPF resource.\<close>

definition CreateInfrastructureFiles :: "string \<Rightarrow> string \<Rightarrow> FolderKeeper \<Rightarrow> FolderKeeper" where
  "CreateInfrastructureFiles version uuid s =
     (let (lcp, key_to_lcp) = QHash_subscript (m_KeyToLCP s) ''opf'' [];
          opf = (new_Resource OPFResourceType uuid (m_FullPathToMainFolder s)
                   (m_FullPathToOEBPSFolder s @ ''/'' @ OPF_FILE_NAME))
                  \<lparr>m_EpubVersion := version, m_LCP := lcp\<rparr>;
          resource = length (heap s)
      in s\<lparr>heap := heap s @ [opf],
            m_OPF := Some resource,
            m_KeyToLCP := key_to_lcp,
            m_Resources := AList.update (GetIdentifier opf) resource (m_Resources s),
            m_Path2Resource :=
              AList.update (GetRelativePath opf) (Some resource) (m_Path2Resource s)\<rparr>)"

text \<open>The constructor: \<open>temp_folder\<close> is the path of the temporary folder, which never ends
  with a separator.\<close>

definition FolderKeeper_new :: "string \<Rightarrow> string \<Rightarrow> string \<Rightarrow> FolderKeeper" where
  "FolderKeeper_new temp_folder version uuid =
     CreateInfrastructureFiles version uuid
       (CreateFolderStructure
          (CreateKeyToLCPMap
             \<lparr>heap = [], m_OPF = None, m_NCX = None, m_Resources = [], m_Path2Resource = [],
              m_FSWatcher = [], m_SuspendedWatchedFiles = [], m_KeyToLCP = [],
              m_FullPathToMainFolder = temp_folder, m_FullPathToMetaInfFolder = [],
              m_FullPathToOEBPSFolder = [], m_FullPathToAudioFolder = [],
              m_FullPathToVideoFolder = [], m_FullPathToImagesFolder = [],
              m_FullPathToFontsFolder = [], m_FullPathToTextFolder = [],
              m_FullPathToStylesFolder = [], m_FullPathToMiscFolder = []\<rparr>))"

section \<open>The operations of the registry\<close>

subsection \<open>Queries\<close>

text \<open>\<open>m_Resources.values()\<close>, each pointer followed to its object.\<close>

definition GetResourceList :: "FolderKeeper \<Rightarrow> nat list" where
  "GetResourceList s = map snd (m_Resources s)"

definition GetAllFilenames :: "FolderKeeper \<Rightarrow> string list" where
  "GetAllFilenames s = map (\<lambda>resource. Filename (heap s ! resource)) (GetResourceList s)"

definition GetAllBookPaths :: "FolderKeeper \<Rightarrow> string list" where
  "GetAllBookPaths s = map (\<lambda>resource. GetRelativePath (heap s ! resource)) (GetResourceList s)"

definition GetUniqueFilenameVersion :: "FolderKeeper \<Rightarrow> string \<Rightarrow> string" where
  "GetUniqueFilenameVersion s filename = UniqueFilenameVersion (GetAllFilenames s) filename"

text \<open>The loop of \<open>GetHighestReadingOrder\<close> over the values of the hash.\<close>

fun count_html :: "Resource list \<Rightarrow> nat list \<Rightarrow> int \<Rightarrow> int" where
  "count_html objects [] count_of_html_resources = count_of_html_resources"
| "count_html objects (resource # resources) count_of_html_resources =
     (if m_Type (objects ! resource) = HTMLResourceType
      then count_html objects resources (count_of_html_resources + 1)
      else count_html objects resources count_of_html_resources)"

definition GetHighestReadingOrder :: "FolderKeeper \<Rightarrow> int" where
  "GetHighestReadingOrder s = count_html (heap s) (GetResourceList s) 0 - 1"

text \<open>\<open>GetResourceByIdentifier\<close> reads \<open>m_Resources[identifier]\<close> of a \<open>const\<close> hash:
  the null pointer for an identifier that is not a key.\<close>

definition GetResourceByIdentifier :: "FolderKeeper \<Rightarrow> string \<Rightarrow> nat option" where
  "GetResourceByIdentifier s identifier = map_of (m_Resources s) identifier"

definition GetResourceByBookPath :: "FolderKeeper \<Rightarrow> string \<Rightarrow> error + nat" where
  "GetResourceByBookPath s bookpath =
     (case QHash_value (m_Path2Resource s) bookpath None of
        Some resource \<Rightarrow> Inr resource
      | None \<Rightarrow> Inl (ResourceDoesNotExist bookpath))"

subsection \<open>Adding a content file\<close>

definition DetermineFileGroup :: "MediaTypes \<Rightarrow> string \<Rightarrow> string \<Rightarrow> string" where
  "DetermineFileGroup MTMaps filepath mimetype =
     (let extension = toLower (QFileInfo_suffix filepath)
      in if contains filepath FILE_EXCEPTIONS then ''other''
         else if mimetype = [] then
           (let mt = GetMediaTypeFromExtension MTMaps extension []
            in if mt = [] then ''other''
               else toLower (GetGroupFromMediaType MTMaps mt ''other''))
         else toLower (GetGroupFromMediaType MTMaps mimetype ''other''))"

text \<open>The chain of lines 160 to 209: the path of the new file, the kind of the object
  that is constructed, and the longest common path it is given.\<close>

definition place_resource ::
  "FolderKeeper \<Rightarrow> string \<Rightarrow> string \<Rightarrow> string \<Rightarrow> string \<Rightarrow> string \<times> ResourceType \<times> string" where
  "place_resource s fullfilepath resdesc filename lcppath =
     (if contains fullfilepath FILE_EXCEPTIONS then
        (m_FullPathToMainFolder s @
           QString_right fullfilepath
             (int (length fullfilepath) - int (length (m_FullPathToMainFolder s))),
         GenericResourceType, lcppath)
      else if resdesc = ''MiscTextResource'' then
        (m_FullPathToMiscFolder s @ ''/'' @ filename, MiscTextResourceType, lcppath)
      else if resdesc = ''AudioResource'' then
        (m_FullPathToAudioFolder s @ ''/'' @ filename, AudioResourceType, lcppath)
      else if resdesc = ''VideoResource'' then
        (m_FullPathToVideoFolder s @ ''/'' @ filename, VideoResourceType, lcppath)
      else if resdesc = ''ImageResource'' then
        (m_FullPathToImagesFolder s @ ''/'' @ filename, ImageResourceType, lcppath)
      else if resdesc = ''SVGResource'' then
        (m_FullPathToImagesFolder s @ ''/'' @ filename, SVGResourceType, lcppath)
      else if resdesc = ''FontResource'' then
        (m_FullPathToFontsFolder s @ ''/'' @ filename, FontResourceType, lcppath)
      else if resdesc = ''HTMLResource'' then
        (m_FullPathToTextFolder s @ ''/'' @ filename, HTMLResourceType, lcppath)
      else if resdesc = ''CSSResource'' then
        (m_FullPathToStylesFolder s @ ''/'' @ filename, CSSResourceType, lcppath)
      else if resdesc = ''XMLResource'' then
        (m_FullPathToMiscFolder s @ ''/'' @ filename, XMLResourceType, lcppath)
      else
        (m_FullPathToMiscFolder s @ ''/'' @ filename, GenericResourceType,
         QHash_value (m_KeyToLCP s) ''misc'' []))"

text \<open>Lines 134 to 143: a file name that starts with a dot loses the dot.\<close>

definition normalise_file_path :: "string \<Rightarrow> string" where
  "normalise_file_path fullfilepath =
     (let fileName = QFileInfo_fileName fullfilepath
      in if take 1 fileName = ''.''
         then QFileInfo_absolutePath fullfilepath @ ''/'' @
                QString_right fileName (int (length fileName) - 1)
         else fullfilepath)"

text \<open>Lines 150 to 209 without the construction of the object: the path of the new file,
  the kind of the object, its media type and its longest common path.\<close>

definition classify_and_place ::
  "MediaTypes \<Rightarrow> FolderKeeper \<Rightarrow> string \<Rightarrow> string \<Rightarrow> string \<times> ResourceType \<times> string \<times> string" where
  "classify_and_place MTMaps s fullfilepath mimetype =
     (let normalised_file_path = normalise_file_path fullfilepath;
          filename = GetUniqueFilenameVersion s (QFileInfo_fileName normalised_file_path);
          extension = toLower (QFileInfo_suffix normalised_file_path);
          mt = (if mimetype = [] then GetMediaTypeFromExtension MTMaps extension []
                else mimetype);
          group = DetermineFileGroup MTMaps normalised_file_path mt;
          resdesc = GetResourceDescFromMediaType MTMaps mt ''Resource'';
          (new_file_path, type, lcppath) =
            place_resource s fullfilepath resdesc filename
              (QHash_value (m_KeyToLCP s) group [])
      in (new_file_path, type, mt, lcppath))"

text \<open>
  \<open>AddContentFileToFolder\<close> returns the exception it throws or the pointer to the new
  resource, together with the state it leaves. \<open>MTMaps\<close> is the media type table,
  \<open>exists\<close> tells which files are on disk, \<open>uuid\<close> is the identifier of the new resource.
  The copy of the file (line 221) changes the disk only, and \<open>update_opf\<close> only decides
  whether the signal \<open>ResourceAdded\<close> is emitted.
\<close>

definition AddContentFileToFolder ::
  "MediaTypes \<Rightarrow> (string \<Rightarrow> bool) \<Rightarrow> string \<Rightarrow> FolderKeeper \<Rightarrow> string \<Rightarrow> bool \<Rightarrow> string
     \<Rightarrow> (error + nat) \<times> FolderKeeper" where
  "AddContentFileToFolder MTMaps exists uuid s fullfilepath update_opf mimetype =
     (if \<not> exists fullfilepath then (Inl (FileDoesNotExist fullfilepath), s)
      else
        let (new_file_path, type, mt, lcppath) =
              classify_and_place MTMaps s fullfilepath mimetype;
            object = new_Resource type uuid (m_FullPathToMainFolder s) new_file_path;
            resource = length (heap s);
            book_path =
              QString_right new_file_path
                (int (length new_file_path) - int (length (m_FullPathToMainFolder s)) - 1);
            s1 = s\<lparr>heap := heap s @ [object],
                   m_Resources := AList.update (GetIdentifier object) resource (m_Resources s),
                   m_Path2Resource :=
                     AList.update book_path (Some resource) (m_Path2Resource s)\<rparr>
        in case m_OPF s of
             None \<Rightarrow> (Inl NullPointer, s1)
           | Some opf \<Rightarrow>
               (Inr resource,
                s1\<lparr>heap := heap s @
                      [object\<lparr>m_EpubVersion := m_EpubVersion (heap s ! opf),
                              m_MediaType := mt, m_LCP := lcppath\<rparr>]\<rparr>))"

subsection \<open>The navigation resource\<close>

definition AddNCXToFolder :: "string \<Rightarrow> FolderKeeper \<Rightarrow> string \<Rightarrow> (error + nat) \<times> FolderKeeper" where
  "AddNCXToFolder uuid s version =
     (case m_OPF s of
        None \<Rightarrow> (Inl NullPointer, s)
      | Some opf \<Rightarrow>
          let (lcp, key_to_lcp) = QHash_subscript (m_KeyToLCP s) ''ncx'' [];
              ncx = (new_Resource NCXResourceType uuid (m_FullPathToMainFolder s)
                       (m_FullPathToOEBPSFolder s @ ''/'' @ NCX_FILE_NAME))
                      \<lparr>m_EpubVersion := version, m_LCP := lcp\<rparr>;
              resource = length (heap s)
          in (Inr resource,
              s\<lparr>heap := heap s @ [ncx],
                m_NCX := Some resource,
                m_KeyToLCP := key_to_lcp,
                m_Resources := AList.update (GetIdentifier ncx) resource (m_Resources s),
                m_Path2Resource :=
                  AList.update (GetRelativePath ncx) (Some resource) (m_Path2Resource s)\<rparr>))"

subsection \<open>Removing and renaming\<close>

text \<open>\<open>QFileSystemWatcher::removePath\<close>, \<open>removePaths\<close> and \<open>addPath\<close>, on the list of
  watched files: a path is added when the file exists and is not watched yet.\<close>

definition removePath :: "string \<Rightarrow> string list \<Rightarrow> string list" where
  "removePath path files = removeAll path files"

definition removePaths :: "string list \<Rightarrow> string list \<Rightarrow> string list" where
  "removePaths paths files = filter (\<lambda>file. file \<notin> set paths) files"

definition addPath :: "(string \<Rightarrow> bool) \<Rightarrow> string \<Rightarrow> string list \<Rightarrow> string list" where
  "addPath exists path files =
     (if exists path \<and> path \<notin> set files then files @ [path] else files)"

definition RemoveResource :: "FolderKeeper \<Rightarrow> nat \<Rightarrow> FolderKeeper" where
  "RemoveResource s resource =
     (let object = heap s ! resource
      in s\<lparr>m_Resources := AList.delete (GetIdentifier object) (m_Resources s),
            m_Path2Resource := AList.delete (GetRelativePath object) (m_Path2Resource s),
            m_FSWatcher :=
              (if GetFullPath object \<in> set (m_FSWatcher s)
               then removePath (GetFullPath object) (m_FSWatcher s)
               else m_FSWatcher s),
            m_SuspendedWatchedFiles :=
              removeAll (GetFullPath object) (m_SuspendedWatchedFiles s)\<rparr>)"

definition RemoveNCXFromFolder :: "FolderKeeper \<Rightarrow> FolderKeeper" where
  "RemoveNCXFromFolder s =
     (case m_NCX s of
        None \<Rightarrow> s
      | Some ncx \<Rightarrow> (RemoveResource s ncx)\<lparr>m_NCX := None\<rparr>)"

text \<open>\<open>ResourceRenamed\<close> is the slot of the signal \<open>Renamed\<close>: when it runs, the object
  already has its new full path. The call into the manifest (line 474) is outside the
  model.\<close>

definition ResourceRenamed :: "FolderKeeper \<Rightarrow> nat \<Rightarrow> string \<Rightarrow> FolderKeeper" where
  "ResourceRenamed s resource old_full_path =
     (let book_path =
            QString_right old_full_path
              (int (length old_full_path) - int (length (m_FullPathToMainFolder s)) - 1);
          (res, path2resource) = QHash_subscript (m_Path2Resource s) book_path None
      in s\<lparr>m_Path2Resource :=
             AList.update (GetRelativePath (heap s ! resource)) res
               (AList.delete book_path path2resource)\<rparr>)"

text \<open>
  Modelled from the spec: \<open>Resource::RenameTo\<close> is not part of the file. The full path of
  a resource is mutable only via rename, and the rename notification carries the resource
  and its prior full path: the object gets its new full path, then the slot runs.
\<close>

definition rename_resource :: "FolderKeeper \<Rightarrow> nat \<Rightarrow> string \<Rightarrow> FolderKeeper" where
  "rename_resource s resource new_full_path =
     (let old_full_path = GetFullPath (heap s ! resource);
          s1 = s\<lparr>heap := (heap s)[resource := (heap s ! resource)\<lparr>m_FullFilePath := new_full_path\<rparr>]\<rparr>
      in ResourceRenamed s1 resource old_full_path)"

subsection \<open>Watching files\<close>

text \<open>\<open>mayOpen\<close> is \<open>OpenExternally::mayOpen\<close>, which is not part of the file.\<close>

definition WatchResourceFile ::
  "(ResourceType \<Rightarrow> bool) \<Rightarrow> (string \<Rightarrow> bool) \<Rightarrow> FolderKeeper \<Rightarrow> nat \<Rightarrow> FolderKeeper" where
  "WatchResourceFile mayOpen exists s resource =
     (let object = heap s ! resource
      in if mayOpen (m_Type object) then
           (if GetFullPath object \<notin> set (m_FSWatcher s)
            then s\<lparr>m_FSWatcher := addPath exists (GetFullPath object) (m_FSWatcher s)\<rparr>
            else s)
         else s)"

definition SuspendWatchingResources :: "FolderKeeper \<Rightarrow> FolderKeeper" where
  "SuspendWatchingResources s =
     (if m_SuspendedWatchedFiles s = [] \<and> m_FSWatcher s \<noteq> [] then
        let suspended = m_SuspendedWatchedFiles s @ m_FSWatcher s
        in s\<lparr>m_SuspendedWatchedFiles := suspended,
              m_FSWatcher := removePaths suspended (m_FSWatcher s)\<rparr>
      else s)"

definition ResumeWatchingResources :: "(string \<Rightarrow> bool) \<Rightarrow> FolderKeeper \<Rightarrow> FolderKeeper" where
  "ResumeWatchingResources exists s =
     (if m_SuspendedWatchedFiles s \<noteq> [] then
        s\<lparr>m_FSWatcher :=
            foldl (\<lambda>files path. if exists path then addPath exists path files else files)
              (m_FSWatcher s) (m_SuspendedWatchedFiles s),
          m_SuspendedWatchedFiles := []\<rparr>
      else s)"

section \<open>The allocator as the specification describes it\<close>

text \<open>
  The specification's \<open>allocate(desiredName, existingNames)\<close>, following its words: the
  prefix is the base name without its trailing run of decimal digits; among the existing
  names that match \<open>^prefix(\d*)\.extension$\<close> the numeric suffixes are the captures that
  hold a number; the value is the maximum of these numbers and the width the length of the
  captured text of that maximum, \<open>0\<close> and \<open>4\<close> when there is none; the result is the prefix,
  the value plus one padded with zeros to the width, and the extension.
\<close>

definition zero_pad :: "nat \<Rightarrow> nat \<Rightarrow> string" where
  "zero_pad n width = replicate (width - length (digits_of n)) (CHR ''0'') @ digits_of n"

definition numeric_captures :: "string \<Rightarrow> string \<Rightarrow> string list \<Rightarrow> string list" where
  "numeric_captures name_prefix extension names =
     filter (\<lambda>c. c \<noteq> []) (List.map_filter (filename_search name_prefix extension) names)"

definition allocate :: "string \<Rightarrow> string list \<Rightarrow> string" where
  "allocate desiredName existingNames =
     (if \<not> contains_CaseInsensitive existingNames desiredName then desiredName
      else
        let name_prefix = strip_digits (QFileInfo_baseName desiredName);
            extension = QFileInfo_completeSuffix desiredName;
            captures = numeric_captures name_prefix extension existingNames;
            maximum = (if captures = [] then 0 else Max (set (map dec_value captures)));
            width = (if captures = [] then 4
                     else length (hd (filter (\<lambda>c. dec_value c = maximum) captures)))
        in name_prefix @ zero_pad (maximum + 1) width @
           (if extension \<noteq> [] then ''.'' @ extension else []))"

text \<open>
  The same with the numeric suffixes restricted to those that fit an \<open>int\<close>, which are the
  ones the conversion of line 281 accepts.
\<close>

definition int_captures :: "string \<Rightarrow> string \<Rightarrow> string list \<Rightarrow> string list" where
  "int_captures name_prefix extension names =
     filter (\<lambda>c. int (dec_value c) \<le> INT_MAX) (numeric_captures name_prefix extension names)"

definition allocate_int :: "string \<Rightarrow> string list \<Rightarrow> string" where
  "allocate_int desiredName existingNames =
     (if \<not> contains_CaseInsensitive existingNames desiredName then desiredName
      else
        let name_prefix = strip_digits (QFileInfo_baseName desiredName);
            extension = QFileInfo_completeSuffix desiredName;
            captures = int_captures name_prefix extension existingNames;
            maximum = (if captures = [] then 0 else Max (set (map dec_value captures)));
            width = (if captures = [] then 4
                     else length (hd (filter (\<lambda>c. dec_value c = maximum) captures)))
        in name_prefix @ zero_pad (maximum + 1) width @
           (if extension \<noteq> [] then ''.'' @ extension else []))"

text \<open>The loop of the allocator on the captures alone: the first capture with the largest
  number gives the width.\<close>

fun pick_max :: "string list \<Rightarrow> int \<times> int \<Rightarrow> int \<times> int" where
  "pick_max [] acc = acc"
| "pick_max (c # cs) (m, l) =
     (if int (dec_value c) > m then pick_max cs (int (dec_value c), int (length c))
      else pick_max cs (m, l))"

section \<open>The invariant of the two indices and runs of the registry\<close>

text \<open>
  Invariant I1 of the specification: the keys of each index are distinct; every entry of
  \<open>m_Resources\<close> points to a resource of this keeper that has the identifier of the entry
  and that \<open>m_Path2Resource\<close> holds under its book path; every entry of
  \<open>m_Path2Resource\<close> points to a resource that has the book path of the entry and that
  \<open>m_Resources\<close> holds under its identifier.
\<close>

definition I1 :: "FolderKeeper \<Rightarrow> bool" where
  "I1 s \<longleftrightarrow>
     distinct (map fst (m_Resources s)) \<and>
     distinct (map fst (m_Path2Resource s)) \<and>
     (\<forall>(identifier, resource) \<in> set (m_Resources s).
        resource < length (heap s) \<and>
        GetIdentifier (heap s ! resource) = identifier \<and>
        m_MainFolder (heap s ! resource) = m_FullPathToMainFolder s \<and>
        map_of (m_Path2Resource s) (GetRelativePath (heap s ! resource)) = Some (Some resource)) \<and>
     (\<forall>(bookpath, res) \<in> set (m_Path2Resource s).
        case res of
          None \<Rightarrow> False
        | Some resource \<Rightarrow>
            resource < length (heap s) \<and>
            GetRelativePath (heap s ! resource) = bookpath \<and>
            map_of (m_Resources s) (GetIdentifier (heap s ! resource)) = Some resource)"

text \<open>
  The operations of the registry, and a run of them. A step of the run is refused
  (\<open>None\<close>) when the operation throws, and when the operation is outside of what the keeper
  expects of its callers: an addition has to come with an identifier and to arrive at a
  book path that are not registered yet, a removal has to name a registered resource, and
  a rename has to move a registered resource to a book path that is not registered yet.
\<close>

datatype operation =
    AddContentFile string string bool string
  | AddNavigationResource string string
  | Remove nat
  | Rename nat string

definition registered :: "FolderKeeper \<Rightarrow> nat \<Rightarrow> bool" where
  "registered s resource \<longleftrightarrow>
     resource < length (heap s) \<and>
     map_of (m_Resources s) (GetIdentifier (heap s ! resource)) = Some resource"

definition new_entry_allowed :: "FolderKeeper \<Rightarrow> string \<Rightarrow> (error + nat) \<times> FolderKeeper
    \<Rightarrow> FolderKeeper option" where
  "new_entry_allowed s uuid result =
     (case result of
        (Inl e, s') \<Rightarrow> None
      | (Inr resource, s') \<Rightarrow>
          if uuid \<notin> set (map fst (m_Resources s)) \<and>
             GetRelativePath (heap s' ! resource) \<notin> set (map fst (m_Path2Resource s))
          then Some s' else None)"

fun step :: "MediaTypes \<Rightarrow> (string \<Rightarrow> bool) \<Rightarrow> FolderKeeper \<Rightarrow> operation \<Rightarrow> FolderKeeper option" where
  "step MTMaps exists s (AddContentFile uuid fullfilepath update_opf mimetype) =
     new_entry_allowed s uuid
       (AddContentFileToFolder MTMaps exists uuid s fullfilepath update_opf mimetype)"
| "step MTMaps exists s (AddNavigationResource uuid version) =
     new_entry_allowed s uuid (AddNCXToFolder uuid s version)"
| "step MTMaps exists s (Remove resource) =
     (if registered s resource then Some (RemoveResource s resource) else None)"
| "step MTMaps exists s (Rename resource new_full_path) =
     (if registered s resource \<and>
         GetRelativePath ((heap s ! resource)\<lparr>m_FullFilePath := new_full_path\<rparr>)
           \<notin> set (map fst (m_Path2Resource s))
      then Some (rename_resource s resource new_full_path) else None)"

fun run :: "MediaTypes \<Rightarrow> (string \<Rightarrow> bool) \<Rightarrow> FolderKeeper \<Rightarrow> operation list \<Rightarrow> FolderKeeper option" where
  "run MTMaps exists s [] = Some s"
| "run MTMaps exists s (operation # operations) =
     (case step MTMaps exists s operation of
        None \<Rightarrow> None
      | Some s' \<Rightarrow> run MTMaps exists s' operations)"

text \<open>A sequence of additions of content files, each given as identifier, path and media
  type hint: the first exception ends it, otherwise the new resources are returned in the
  order of the additions.\<close>

fun add_files :: "MediaTypes \<Rightarrow> (string \<Rightarrow> bool) \<Rightarrow> FolderKeeper \<Rightarrow> (string \<times> string \<times> string) list
    \<Rightarrow> (error + nat list) \<times> FolderKeeper" where
  "add_files MTMaps exists s [] = (Inr [], s)"
| "add_files MTMaps exists s ((uuid, fullfilepath, mimetype) # files) =
     (case AddContentFileToFolder MTMaps exists uuid s fullfilepath True mimetype of
        (Inl e, s') \<Rightarrow> (Inl e, s')
      | (Inr resource, s') \<Rightarrow>
          (case add_files MTMaps exists s' files of
             (Inl e, s'') \<Rightarrow> (Inl e, s'')
           | (Inr resources, s'') \<Rightarrow> (Inr (resource # resources), s'')))"

text \<open>A path lies under a folder when it starts with the folder and a separator.\<close>

definition under :: "string \<Rightarrow> string \<Rightarrow> bool" where
  "under folder path \<longleftrightarrow> take (length folder + 1) path = folder @ ''/''"

text \<open>The media type of a file is unknown to the classification table when the media type
  (the hint, or without a hint what the table gives for the extension, the empty string for
  an extension it does not know) has no resource descriptor in the table.\<close>

definition unknown_to_classification :: "MediaTypes \<Rightarrow> string \<Rightarrow> string \<Rightarrow> bool" where
  "unknown_to_classification MTMaps extension mimetype \<longleftrightarrow>
     map_of (m_MTypeToRDesc MTMaps)
       (if mimetype = [] then GetMediaTypeFromExtension MTMaps extension [] else mimetype) = None"

text \<open>A keeper and a media type table for the examples: the keeper as its constructor
  leaves it, for the temporary folder \<open>/tmp/bk\<close>.\<close>

definition example_keeper :: FolderKeeper where
  "example_keeper = FolderKeeper_new ''/tmp/bk'' ''2.0'' ''opf''"

definition example_types :: MediaTypes where
  "example_types =
     \<lparr>m_ExtToMType = [(''html'', ''application/xhtml+xml''), (''css'', ''text/css'')],
      m_MTypeToGroup = [(''application/xhtml+xml'', ''Text''), (''text/css'', ''Styles'')],
      m_MTypeToRDesc =
        [(''application/xhtml+xml'', ''HTMLResource''), (''text/css'', ''CSSResource'')]\<rparr>"

text \<open>The example keeper after the content file \<open>/tmp/in/a.html\<close> has been added, and
  after the file \<open>/tmp/in/META-INF/a.html\<close> has been added as well.\<close>

definition example_one :: FolderKeeper where
  "example_one =
     snd (AddContentFileToFolder example_types (\<lambda>path. True) ''id1'' example_keeper
            ''/tmp/in/a.html'' True [])"

definition example_two :: FolderKeeper where
  "example_two =
     snd (AddContentFileToFolder example_types (\<lambda>path. True) ''id2'' example_one
            ''/tmp/in/META-INF/a.html'' True [])"

text \<open>All pointers of \<open>m_Resources\<close> point into the store.\<close>

definition pointers_valid :: "FolderKeeper \<Rightarrow> bool" where
  "pointers_valid s \<longleftrightarrow> (\<forall>resource \<in> set (GetResourceList s). resource < length (heap s))"

text \<open>The example keeper after the file \<open>/tmp/in/META-INF/x.xml\<close> has been added twice.\<close>

definition example_twice :: FolderKeeper where
  "example_twice =
     snd (AddContentFileToFolder example_types (\<lambda>path. True) ''id2''
            (snd (AddContentFileToFolder example_types (\<lambda>path. True) ''id1'' example_keeper
                    ''/tmp/in/META-INF/x.xml'' True []))
            ''/tmp/in/META-INF/x.xml'' True [])"

text \<open>Every registered resource lies under the main folder, and so do the seven folders
  of the content files, as \<open>CreateFolderStructure\<close> sets them.\<close>

definition placed :: "FolderKeeper \<Rightarrow> bool" where
  "placed s \<longleftrightarrow>
     (\<forall>resource \<in> set (GetResourceList s).
        under (m_FullPathToMainFolder s) (GetFullPath (heap s ! resource))) \<and>
     (\<forall>folder \<in> set [m_FullPathToMiscFolder s, m_FullPathToAudioFolder s,
                       m_FullPathToVideoFolder s, m_FullPathToImagesFolder s,
                       m_FullPathToFontsFolder s, m_FullPathToTextFolder s,
                       m_FullPathToStylesFolder s].
        under (m_FullPathToMainFolder s) folder)"

section \<open>Evaluation on concrete inputs\<close>

lemma digits_of_lt10: "n < 10 \<Longrightarrow> digits_of n = [digit_char n]"
  by (simp add: digits_of.simps)

lemma digits_of_ge10: "10 \<le> n \<Longrightarrow> digits_of n = digits_of (n div 10) @ [digit_char (n mod 10)]"
  by (simp add: digits_of.simps)

lemma replicate_numeral: "replicate (numeral k) x = x # replicate (pred_numeral k) x"
  by (simp add: numeral_eq_Suc)

lemma toLower_char_if:
  "toLower_char c =
    (if c = CHR ''A'' then CHR ''a'' else if c = CHR ''B'' then CHR ''b''
     else if c = CHR ''C'' then CHR ''c'' else if c = CHR ''D'' then CHR ''d''
     else if c = CHR ''E'' then CHR ''e'' else if c = CHR ''F'' then CHR ''f''
     else if c = CHR ''G'' then CHR ''g'' else if c = CHR ''H'' then CHR ''h''
     else if c = CHR ''I'' then CHR ''i'' else if c = CHR ''J'' then CHR ''j''
     else if c = CHR ''K'' then CHR ''k'' else if c = CHR ''L'' then CHR ''l''
     else if c = CHR ''M'' then CHR ''m'' else if c = CHR ''N'' then CHR ''n''
     else if c = CHR ''O'' then CHR ''o'' else if c = CHR ''P'' then CHR ''p''
     else if c = CHR ''Q'' then CHR ''q'' else if c = CHR ''R'' then CHR ''r''
     else if c = CHR ''S'' then CHR ''s'' else if c = CHR ''T'' then CHR ''t''
     else if c = CHR ''U'' then CHR ''u'' else if c = CHR ''V'' then CHR ''v''
     else if c = CHR ''W'' then CHR ''w'' else if c = CHR ''X'' then CHR ''x''
     else if c = CHR ''Y'' then CHR ''y'' else if c = CHR ''Z'' then CHR ''z'' else c)"
  by (simp add: toLower_char_def)

lemmas string_eval =
  toLower_def toLower_char_if is_digit_def LF_def QString_right_def
  contains_CaseInsensitive_def QFileInfo_fileName_def QFileInfo_baseName_def
  QFileInfo_completeSuffix_def QFileInfo_suffix_def QFileInfo_absolutePath_def
  digit_char_def digit_value_def digits_of_lt10 digits_of_ge10 dec_value_def
  INT_MAX_def int32_wrap_def captured_toInt_def QString_arg_def replicate_numeral Let_def

lemmas allocator_eval =
  UniqueFilenameVersion_def remove_digits_at_end_def strip_digits_def filename_search_def
  string_eval

lemmas allocate_eval =
  allocate_def allocate_int_def numeric_captures_def int_captures_def
  List.map_filter_simps strip_digits_def filename_search_def
  toLower_def toLower_char_if is_digit_def LF_def contains_CaseInsensitive_def
  QFileInfo_fileName_def QFileInfo_baseName_def QFileInfo_completeSuffix_def
  digit_value_def dec_value_def INT_MAX_def Let_def

lemmas zero_pad_eval =
  zero_pad_def digits_of_lt10 digits_of_ge10 digit_char_def replicate_numeral

section \<open>The unique name allocator: the loop and the specification\<close>

lemma filename_search_digits:
  "filename_search P E f = Some c \<Longrightarrow> list_all is_digit c"
  by (auto simp: filename_search_def Let_def list_all_iff split: if_splits dest: set_takeWhileD)

lemma captured_toInt_digits:
  "list_all is_digit c \<Longrightarrow>
   captured_toInt c = (if c \<noteq> [] \<and> int (dec_value c) \<le> INT_MAX then Some (int (dec_value c)) else None)"
  by (simp add: captured_toInt_def)

lemma scan_filenames_pick:
  "scan_filenames P E fs acc = pick_max (int_captures P E fs) acc"
proof (induction fs arbitrary: acc)
  case Nil
  show ?case by (cases acc) (simp add: int_captures_def numeric_captures_def List.map_filter_simps)
next
  case (Cons f fs)
  obtain m l where acc: "acc = (m, l)" by (cases acc)
  show ?case
  proof (cases "filename_search P E f")
    case None
    then show ?thesis using Cons
      by (simp add: acc int_captures_def numeric_captures_def List.map_filter_simps)
  next
    case (Some c)
    then have d: "list_all is_digit c" by (rule filename_search_digits)
    show ?thesis using Cons Some
      by (simp add: acc int_captures_def numeric_captures_def List.map_filter_simps
            captured_toInt_digits[OF d])
  qed
qed

lemma pick_max_eq:
  "pick_max cs (m, l) =
     (if \<forall>c\<in>set cs. int (dec_value c) \<le> m then (m, l)
      else (int (Max (set (map dec_value cs))),
            int (length (hd (filter (\<lambda>c. dec_value c = Max (set (map dec_value cs))) cs)))))"
proof (induction cs arbitrary: m l)
  case Nil
  show ?case by simp
next
  case (Cons c cs)
  let ?v = "dec_value c"
  show ?case
  proof (cases "int ?v > m")
    case True
    show ?thesis
    proof (cases "\<forall>d\<in>set cs. int (dec_value d) \<le> int ?v")
      case all: True
      then have "\<forall>d\<in>set cs. dec_value d \<le> ?v" by auto
      then have "Max (set (map dec_value (c # cs))) = ?v"
        by (intro Max_eqI) auto
      then show ?thesis using True all Cons.IH[of "int ?v" "int (length c)"] by simp
    next
      case ex: False
      then obtain d where d: "d \<in> set cs" "dec_value d > ?v" by force
      have ne: "set (map dec_value cs) \<noteq> {}" using d by auto
      have "Max (set (map dec_value cs)) \<ge> dec_value d" using d by (intro Max_ge) auto
      then have gt: "Max (set (map dec_value cs)) > ?v" using d by linarith
      then have M: "Max (set (map dec_value (c # cs))) = Max (set (map dec_value cs))"
        using ne by (simp add: max_def)
      show ?thesis using True ex Cons.IH[of "int ?v" "int (length c)"] gt M by auto
    qed
  next
    case False
    show ?thesis
    proof (cases "\<forall>d\<in>set cs. int (dec_value d) \<le> m")
      case all: True
      then show ?thesis using False Cons.IH[of m l] by simp
    next
      case ex: False
      then obtain d where d: "d \<in> set cs" "int (dec_value d) > m" by force
      have ne: "set (map dec_value cs) \<noteq> {}" using d by auto
      have "Max (set (map dec_value cs)) \<ge> dec_value d" using d by (intro Max_ge) auto
      then have gt: "Max (set (map dec_value cs)) > ?v" using d False by linarith
      then have M: "Max (set (map dec_value (c # cs))) = Max (set (map dec_value cs))"
        using ne by (simp add: max_def)
      show ?thesis using False ex Cons.IH[of m l] gt M by auto
    qed
  qed
qed


lemma int32_wrap_id: "- 2147483648 \<le> x \<Longrightarrow> x < 2147483648 \<Longrightarrow> int32_wrap x = x"
  by (simp add: int32_wrap_def)

lemma QString_arg_zero_pad:
  "0 \<le> a \<Longrightarrow> QString_arg a (int w) = zero_pad (nat a) w"
  by (simp add: QString_arg_def zero_pad_def Let_def)

lemma remove_digits_at_end_no_LF:
  "LF \<notin> set s \<Longrightarrow> remove_digits_at_end s = strip_digits s"
proof -
  assume "LF \<notin> set s"
  then have "s \<noteq> [] \<Longrightarrow> last s \<noteq> LF"
    using last_in_set[of s] by metis
  then show ?thesis
    by (auto simp: remove_digits_at_end_def)
qed

lemma baseName_subset: "set (QFileInfo_baseName f) \<subseteq> set f"
  by (auto simp: QFileInfo_baseName_def QFileInfo_fileName_def dest!: set_takeWhileD)

lemma UniqueFilenameVersion_allocate_int:
  assumes lf: "LF \<notin> set filename"
    and below: "\<forall>c\<in>set (int_captures (strip_digits (QFileInfo_baseName filename))
                  (QFileInfo_completeSuffix filename) filenames). int (dec_value c) < INT_MAX"
  shows "UniqueFilenameVersion filenames filename = allocate_int filename filenames"
proof (cases "contains_CaseInsensitive filenames filename")
  case False
  then show ?thesis by (simp add: UniqueFilenameVersion_def allocate_int_def)
next
  case True
  let ?P = "strip_digits (QFileInfo_baseName filename)"
  let ?E = "QFileInfo_completeSuffix filename"
  let ?caps = "int_captures ?P ?E filenames"
  have P: "remove_digits_at_end (QFileInfo_baseName filename) = ?P"
    using lf baseName_subset[of filename] by (intro remove_digits_at_end_no_LF) auto
  show ?thesis
  proof (cases "?caps = []")
    case Nil: True
    have scan: "scan_filenames ?P ?E filenames (- 1, - 1) = (- 1, - 1)"
      by (simp add: scan_filenames_pick Nil)
    have "QString_arg (int32_wrap 1) 4 = zero_pad 1 4"
      using QString_arg_zero_pad[of 1 4] by (simp add: int32_wrap_id)
    then show ?thesis using True Nil
      by (simp add: UniqueFilenameVersion_def allocate_int_def P scan Let_def)
  next
    case ne: False
    let ?M = "Max (set (map dec_value ?caps))"
    let ?w = "length (hd (filter (\<lambda>c. dec_value c = ?M) ?caps))"
    have notall: "\<not> (\<forall>c\<in>set ?caps. int (dec_value c) \<le> - 1)"
      using ne by (cases ?caps) auto
    have scan: "scan_filenames ?P ?E filenames (- 1, - 1) = (int ?M, int ?w)"
      using notall by (simp add: scan_filenames_pick pick_max_eq)
    have "?M \<in> set (map dec_value ?caps)" using ne by (intro Max_in) auto
    then have Mlt: "int ?M < INT_MAX" using below by auto
    have "QString_arg (int32_wrap (int ?M + 1)) (int ?w) = zero_pad (?M + 1) ?w"
      using Mlt QString_arg_zero_pad[of "int ?M + 1" ?w]
      by (simp add: int32_wrap_id INT_MAX_def nat_add_distrib)
    then show ?thesis using True ne
      by (simp add: UniqueFilenameVersion_def allocate_int_def P scan Let_def)
  qed
qed


section \<open>The example keepers\<close>

lemmas keeper_eval =
  FolderKeeper_new_def CreateInfrastructureFiles_def CreateFolderStructure_def
  CreateKeyToLCPMap_def QHash_subscript_def QHash_value_def new_Resource_def
  GetIdentifier_def GetRelativePath_def GetFullPath_def Filename_def
  AUDIO_FOLDER_NAME_def VIDEO_FOLDER_NAME_def IMAGE_FOLDER_NAME_def FONT_FOLDER_NAME_def
  TEXT_FOLDER_NAME_def STYLE_FOLDER_NAME_def MISC_FOLDER_NAME_def OPF_FILE_NAME_def
  NCX_FILE_NAME_def FILE_EXCEPTIONS_def AddContentFileToFolder_def classify_and_place_def
  normalise_file_path_def
  place_resource_def DetermineFileGroup_def GetMediaTypeFromExtension_def
  GetGroupFromMediaType_def GetResourceDescFromMediaType_def GetUniqueFilenameVersion_def
  GetAllFilenames_def GetResourceList_def example_types_def

lemma example_keeper_eq:
  "example_keeper =
     \<lparr>heap =
        [\<lparr>m_Identifier = ''opf'', m_MainFolder = ''/tmp/bk'',
           m_FullFilePath = ''/tmp/bk/OEBPS/content.opf'', m_Type = OPFResourceType,
           m_EpubVersion = ''2.0'', m_MediaType = [], m_LCP = ''/tmp/bk/OEBPS/''\<rparr>],
      m_OPF = Some 0, m_NCX = None, m_Resources = [(''opf'', 0)],
      m_Path2Resource = [(''OEBPS/content.opf'', Some 0)],
      m_FSWatcher = [], m_SuspendedWatchedFiles = [],
      m_KeyToLCP =
        [(''text'', ''/tmp/bk/OEBPS/Text/''), (''styles'', ''/tmp/bk/OEBPS/Styles/''),
         (''images'', ''/tmp/bk/OEBPS/Images/''), (''fonts'', ''/tmp/bk/OEBPS/Fonts/''),
         (''audio'', ''/tmp/bk/OEBPS/Audio/''), (''video'', ''/tmp/bk/OEBPS/Video/''),
         (''misc'', ''/tmp/bk/OEBPS/Misc/''), (''ncx'', ''/tmp/bk/OEBPS/''),
         (''opf'', ''/tmp/bk/OEBPS/''), (''other'', ''/tmp/bk/'')],
      m_FullPathToMainFolder = ''/tmp/bk'',
      m_FullPathToMetaInfFolder = ''/tmp/bk/META-INF'',
      m_FullPathToOEBPSFolder = ''/tmp/bk/OEBPS'',
      m_FullPathToAudioFolder = ''/tmp/bk/OEBPS/Audio'',
      m_FullPathToVideoFolder = ''/tmp/bk/OEBPS/Video'',
      m_FullPathToImagesFolder = ''/tmp/bk/OEBPS/Images'',
      m_FullPathToFontsFolder = ''/tmp/bk/OEBPS/Fonts'',
      m_FullPathToTextFolder = ''/tmp/bk/OEBPS/Text'',
      m_FullPathToStylesFolder = ''/tmp/bk/OEBPS/Styles'',
      m_FullPathToMiscFolder = ''/tmp/bk/OEBPS/Misc''\<rparr>"
  by (simp add: example_keeper_def keeper_eval string_eval)

lemma example_one_result:
  "AddContentFileToFolder example_types (\<lambda>path. True) ''id1'' example_keeper
     ''/tmp/in/a.html'' True [] =
   (Inr 1,
    example_keeper
      \<lparr>heap := heap example_keeper @
         [\<lparr>m_Identifier = ''id1'', m_MainFolder = ''/tmp/bk'',
            m_FullFilePath = ''/tmp/bk/OEBPS/Text/a.html'', m_Type = HTMLResourceType,
            m_EpubVersion = ''2.0'', m_MediaType = ''application/xhtml+xml'',
            m_LCP = ''/tmp/bk/OEBPS/Text/''\<rparr>],
       m_Resources := [(''opf'', 0), (''id1'', 1)],
       m_Path2Resource := [(''OEBPS/content.opf'', Some 0), (''OEBPS/Text/a.html'', Some 1)]\<rparr>)"
  by (simp add: example_keeper_eq keeper_eval allocator_eval)

lemma example_one_eq:
  "example_one =
    example_keeper
      \<lparr>heap := heap example_keeper @
         [\<lparr>m_Identifier = ''id1'', m_MainFolder = ''/tmp/bk'',
            m_FullFilePath = ''/tmp/bk/OEBPS/Text/a.html'', m_Type = HTMLResourceType,
            m_EpubVersion = ''2.0'', m_MediaType = ''application/xhtml+xml'',
            m_LCP = ''/tmp/bk/OEBPS/Text/''\<rparr>],
       m_Resources := [(''opf'', 0), (''id1'', 1)],
       m_Path2Resource := [(''OEBPS/content.opf'', Some 0), (''OEBPS/Text/a.html'', Some 1)]\<rparr>"
  by (simp add: example_one_def example_one_result)

lemma example_two_result:
  "AddContentFileToFolder example_types (\<lambda>path. True) ''id2'' example_one
     ''/tmp/in/META-INF/a.html'' True [] =
   (Inr 2,
    example_one
      \<lparr>heap := heap example_one @
         [\<lparr>m_Identifier = ''id2'', m_MainFolder = ''/tmp/bk'',
            m_FullFilePath = ''/tmp/bk/META-INF/a.html'', m_Type = GenericResourceType,
            m_EpubVersion = ''2.0'', m_MediaType = ''application/xhtml+xml'',
            m_LCP = ''/tmp/bk/''\<rparr>],
       m_Resources := [(''opf'', 0), (''id1'', 1), (''id2'', 2)],
       m_Path2Resource :=
         [(''OEBPS/content.opf'', Some 0), (''OEBPS/Text/a.html'', Some 1),
          (''META-INF/a.html'', Some 2)]\<rparr>)"
  by (simp add: example_one_eq example_keeper_eq keeper_eval allocator_eval)

lemma example_two_eq:
  "example_two =
    example_one
      \<lparr>heap := heap example_one @
         [\<lparr>m_Identifier = ''id2'', m_MainFolder = ''/tmp/bk'',
            m_FullFilePath = ''/tmp/bk/META-INF/a.html'', m_Type = GenericResourceType,
            m_EpubVersion = ''2.0'', m_MediaType = ''application/xhtml+xml'',
            m_LCP = ''/tmp/bk/''\<rparr>],
       m_Resources := [(''opf'', 0), (''id1'', 1), (''id2'', 2)],
       m_Path2Resource :=
         [(''OEBPS/content.opf'', Some 0), (''OEBPS/Text/a.html'', Some 1),
          (''META-INF/a.html'', Some 2)]\<rparr>"
  by (simp add: example_two_def example_two_result)

lemmas example_eval = example_two_eq example_one_eq example_keeper_eq

text \<open>The same file of \<open>META-INF\<close> added twice to a new keeper: both additions return
  a resource.\<close>

lemma example_twice_additions:
  "fst (AddContentFileToFolder example_types (\<lambda>path. True) ''id1'' example_keeper
          ''/tmp/in/META-INF/x.xml'' True []) = Inr 1"
  "fst (AddContentFileToFolder example_types (\<lambda>path. True) ''id2''
          (snd (AddContentFileToFolder example_types (\<lambda>path. True) ''id1'' example_keeper
                  ''/tmp/in/META-INF/x.xml'' True []))
          ''/tmp/in/META-INF/x.xml'' True []) = Inr 2"
  by (simp_all add: example_keeper_eq keeper_eval allocator_eval)

lemma example_twice_eq:
  "example_twice =
    example_keeper
      \<lparr>heap := heap example_keeper @
         [\<lparr>m_Identifier = ''id1'', m_MainFolder = ''/tmp/bk'',
            m_FullFilePath = ''/tmp/bk/META-INF/x.xml'', m_Type = GenericResourceType,
            m_EpubVersion = ''2.0'', m_MediaType = [], m_LCP = ''/tmp/bk/''\<rparr>,
          \<lparr>m_Identifier = ''id2'', m_MainFolder = ''/tmp/bk'',
            m_FullFilePath = ''/tmp/bk/META-INF/x.xml'', m_Type = GenericResourceType,
            m_EpubVersion = ''2.0'', m_MediaType = [], m_LCP = ''/tmp/bk/''\<rparr>],
       m_Resources := [(''opf'', 0), (''id1'', 1), (''id2'', 2)],
       m_Path2Resource := [(''OEBPS/content.opf'', Some 0), (''META-INF/x.xml'', Some 2)]\<rparr>"
  by (simp add: example_twice_def example_keeper_eq keeper_eval allocator_eval)

section \<open>The allocator returns a name that is not in use\<close>

lemma toLower_char_digit: "is_digit c \<Longrightarrow> toLower_char c = c"
proof -
  have "\<forall>c\<in>set ''0123456789''. toLower_char c = c"
    by (simp add: toLower_char_if)
  then show "is_digit c \<Longrightarrow> toLower_char c = c"
    unfolding is_digit_def by (rule bspec)
qed

lemma is_digit_toLower_char: "is_digit (toLower_char c) = is_digit c"
proof (cases "toLower_char c = c")
  case True
  then show ?thesis by simp
next
  case False
  then obtain d where
    "map_of (zip ''ABCDEFGHIJKLMNOPQRSTUVWXYZ'' ''abcdefghijklmnopqrstuvwxyz'') c = Some d"
    unfolding toLower_char_def by (auto split: option.splits)
  then have "(c, d) \<in> set (zip ''ABCDEFGHIJKLMNOPQRSTUVWXYZ'' ''abcdefghijklmnopqrstuvwxyz'')"
    by (rule map_of_SomeD)
  then have upper: "c \<in> set ''ABCDEFGHIJKLMNOPQRSTUVWXYZ''"
    by (rule set_zip_leftD)
  have "\<forall>c\<in>set ''ABCDEFGHIJKLMNOPQRSTUVWXYZ''. is_digit (toLower_char c) = is_digit c"
    by (simp add: toLower_char_if is_digit_def)
  then show ?thesis
    using upper by (rule bspec)
qed

lemma length_toLower: "length (toLower s) = length s"
  by (simp add: toLower_def)

lemma toLower_digits: "list_all is_digit s \<Longrightarrow> toLower s = s"
  by (induction s) (auto simp: toLower_def toLower_char_digit)

lemma toLower_append: "toLower (xs @ ys) = toLower xs @ toLower ys"
  by (simp add: toLower_def)

lemma takeWhile_digit_toLower: "takeWhile is_digit (toLower s) = toLower (takeWhile is_digit s)"
  by (simp add: toLower_def takeWhile_map comp_def is_digit_toLower_char)

lemma dropWhile_digit_toLower: "dropWhile is_digit (toLower s) = toLower (dropWhile is_digit s)"
  by (simp add: toLower_def dropWhile_map comp_def is_digit_toLower_char)

lemma takeWhile_digits_append:
  "list_all is_digit d \<Longrightarrow> (t = [] \<or> \<not> is_digit (hd t)) \<Longrightarrow> takeWhile is_digit (d @ t) = d"
  by (induction d) (auto simp: takeWhile_eq_Nil_iff)

lemma dropWhile_digits_append:
  "list_all is_digit d \<Longrightarrow> (t = [] \<or> \<not> is_digit (hd t)) \<Longrightarrow> dropWhile is_digit (d @ t) = t"
  by (induction d) (auto simp: dropWhile_eq_self_iff)

text \<open>A name that is, up to case, the prefix followed by digits and the extension matches
  \<open>filename_search\<close>, and the digits are the capture.\<close>

lemma filename_search_match:
  assumes eq: "toLower e = toLower (P @ d @ (if E \<noteq> [] then CHR ''.'' # E else []))"
    and d: "list_all is_digit d"
  shows "filename_search P E e = Some d"
proof -
  let ?t = "if E \<noteq> [] then CHR ''.'' # E else []"
  let ?rest = "drop (length P) e"
  have tail: "toLower ?t = [] \<or> \<not> is_digit (hd (toLower ?t))"
    by (auto simp: toLower_def is_digit_def toLower_char_def)
  from eq have e: "toLower e = toLower P @ d @ toLower ?t"
    using d by (simp only: toLower_append toLower_digits)
  have "take (length P) (toLower e) = toLower P"
    by (simp add: e length_toLower)
  then have head: "toLower (take (length P) e) = toLower P"
    by (simp add: toLower_def take_map)
  have "drop (length P) (toLower e) = d @ toLower ?t"
    by (simp add: e length_toLower)
  then have rest: "toLower ?rest = d @ toLower ?t"
    by (simp add: toLower_def drop_map)
  have "toLower (takeWhile is_digit ?rest) = d"
    using takeWhile_digits_append[OF d tail]
    by (simp only: takeWhile_digit_toLower[symmetric] rest)
  moreover have "list_all is_digit (takeWhile is_digit ?rest)"
    by (auto simp: list_all_iff dest: set_takeWhileD)
  ultimately have capture: "takeWhile is_digit ?rest = d"
    by (simp add: toLower_digits)
  have "toLower (dropWhile is_digit ?rest) = toLower ?t"
    using dropWhile_digits_append[OF d tail]
    by (simp only: dropWhile_digit_toLower[symmetric] rest)
  with head capture show ?thesis
    by (simp add: filename_search_def Let_def)
qed

lemma digit_char_below_ten:
  assumes "d < 10"
  shows "is_digit (digit_char d) \<and> digit_value (digit_char d) = d"
proof -
  have "\<forall>d\<in>set [0, 1, 2, 3, 4, 5, 6, 7, 8, 9 :: nat].
      is_digit (digit_char d) \<and> digit_value (digit_char d) = d"
    by (simp add: is_digit_def digit_char_def digit_value_def)
  moreover have "d \<in> set [0, 1, 2, 3, 4, 5, 6, 7, 8, 9 :: nat]"
    using assms by simp arith
  ultimately show ?thesis
    by (rule bspec)
qed

lemma digits_of_digits: "list_all is_digit (digits_of n)"
proof (induction n rule: digits_of.induct)
  case (1 n)
  show ?case
  proof (cases "n < 10")
    case True
    then show ?thesis by (simp add: digits_of_lt10 digit_char_below_ten)
  next
    case False
    then show ?thesis using 1 by (simp add: digits_of_ge10 digit_char_below_ten)
  qed
qed

lemma dec_value_snoc: "dec_value (s @ [c]) = 10 * dec_value s + digit_value c"
  by (simp add: dec_value_def)

lemma dec_value_digits_of: "dec_value (digits_of n) = n"
proof (induction n rule: digits_of.induct)
  case (1 n)
  show ?case
  proof (cases "n < 10")
    case True
    then show ?thesis by (simp add: digits_of_lt10 dec_value_def digit_char_below_ten)
  next
    case False
    then show ?thesis using 1 by (simp add: digits_of_ge10 dec_value_snoc digit_char_below_ten)
  qed
qed

lemma digits_of_not_Nil: "digits_of n \<noteq> []"
  by (cases "n < 10") (simp_all add: digits_of_lt10 digits_of_ge10)

lemma dec_value_zeros: "foldl (\<lambda>n c. 10 * n + digit_value c) 0 (replicate k (CHR ''0'')) = 0"
  by (induction k) (simp_all add: digit_value_def)

lemma zero_pad_value: "dec_value (zero_pad n width) = n"
  using dec_value_digits_of[of n] by (simp add: zero_pad_def dec_value_def dec_value_zeros)

lemma zero_pad_digits: "list_all is_digit (zero_pad n width)"
proof -
  have "is_digit (CHR ''0'')"
    by (simp add: is_digit_def)
  with digits_of_digits[of n] show ?thesis
    by (auto simp: zero_pad_def list_all_iff)
qed

lemma zero_pad_not_Nil: "zero_pad n width \<noteq> []"
  by (simp add: zero_pad_def digits_of_not_Nil)

lemma int_captures_member:
  "e \<in> set names \<Longrightarrow> filename_search P E e = Some c \<Longrightarrow> c \<noteq> [] \<Longrightarrow>
   int (dec_value c) \<le> INT_MAX \<Longrightarrow> c \<in> set (int_captures P E names)"
  by (force simp: int_captures_def numeric_captures_def List.map_filter_def)

text \<open>
  Away from the largest \<open>int\<close> the allocator does what its name says: when no numeric
  suffix that fits an \<open>int\<close> is the largest \<open>int\<close>, the name that it returns is not among
  the existing names, up to case.
\<close>

lemma UniqueFilenameVersion_fresh:
  assumes below: "\<forall>c\<in>set (int_captures (remove_digits_at_end (QFileInfo_baseName filename))
                  (QFileInfo_completeSuffix filename) filenames). int (dec_value c) < INT_MAX"
  shows "\<not> contains_CaseInsensitive filenames (UniqueFilenameVersion filenames filename)"
proof (cases "contains_CaseInsensitive filenames filename")
  case False
  then show ?thesis by (simp add: UniqueFilenameVersion_def)
next
  case True
  let ?P = "remove_digits_at_end (QFileInfo_baseName filename)"
  let ?E = "QFileInfo_completeSuffix filename"
  let ?T = "if ?E \<noteq> [] then CHR ''.'' # ?E else []"
  let ?caps = "int_captures ?P ?E filenames"
  have "\<exists>m w. UniqueFilenameVersion filenames filename = ?P @ zero_pad (Suc m) w @ ?T \<and>
      int (Suc m) \<le> INT_MAX \<and> (\<forall>c\<in>set ?caps. dec_value c \<le> m)"
  proof (cases "?caps = []")
    case Nil: True
    have scan: "scan_filenames ?P ?E filenames (- 1, - 1) = (- 1, - 1)"
      by (simp add: scan_filenames_pick Nil)
    have "QString_arg (int32_wrap 1) 4 = zero_pad 1 4"
      using QString_arg_zero_pad[of 1 4] by (simp add: int32_wrap_id)
    then have "UniqueFilenameVersion filenames filename = ?P @ zero_pad (Suc 0) 4 @ ?T"
      using True by (simp add: UniqueFilenameVersion_def scan Let_def)
    then show ?thesis
      using Nil by (intro exI[of _ 0] exI[of _ 4]) (simp add: INT_MAX_def)
  next
    case ne: False
    let ?M = "Max (set (map dec_value ?caps))"
    let ?w = "length (hd (filter (\<lambda>c. dec_value c = ?M) ?caps))"
    have notall: "\<not> (\<forall>c\<in>set ?caps. int (dec_value c) \<le> - 1)"
      using ne by (cases ?caps) auto
    have scan: "scan_filenames ?P ?E filenames (- 1, - 1) = (int ?M, int ?w)"
      using notall by (simp add: scan_filenames_pick pick_max_eq)
    have "?M \<in> set (map dec_value ?caps)" using ne by (intro Max_in) auto
    then have Mlt: "int ?M < INT_MAX" using below by auto
    have "QString_arg (int32_wrap (int ?M + 1)) (int ?w) = zero_pad (?M + 1) ?w"
      using Mlt QString_arg_zero_pad[of "int ?M + 1" ?w]
      by (simp add: int32_wrap_id INT_MAX_def nat_add_distrib)
    then have "UniqueFilenameVersion filenames filename = ?P @ zero_pad (Suc ?M) ?w @ ?T"
      using True by (simp add: UniqueFilenameVersion_def scan Let_def)
    moreover have "\<forall>c\<in>set ?caps. dec_value c \<le> ?M"
      by (auto intro!: Max_ge)
    ultimately show ?thesis
      using Mlt by (intro exI[of _ ?M] exI[of _ ?w]) simp
  qed
  then obtain m w where result: "UniqueFilenameVersion filenames filename = ?P @ zero_pad (Suc m) w @ ?T"
    and fits: "int (Suc m) \<le> INT_MAX" and all: "\<forall>c\<in>set ?caps. dec_value c \<le> m"
    by blast
  show ?thesis
  proof
    assume "contains_CaseInsensitive filenames (UniqueFilenameVersion filenames filename)"
    then obtain e where e: "e \<in> set filenames"
      and eq: "toLower e = toLower (?P @ zero_pad (Suc m) w @ ?T)"
      unfolding result by (auto simp: contains_CaseInsensitive_def)
    from filename_search_match[OF eq zero_pad_digits]
    have "filename_search ?P ?E e = Some (zero_pad (Suc m) w)" .
    from int_captures_member[OF e this zero_pad_not_Nil] fits
    have "zero_pad (Suc m) w \<in> set ?caps"
      by (simp add: zero_pad_value)
    with all have "dec_value (zero_pad (Suc m) w) \<le> m" by blast
    then show False by (simp add: zero_pad_value)
  qed
qed


text \<open>
  Claim C2. The name that \<open>GetUniqueFilenameVersion\<close> returns should be absent from the
  existing names under case-insensitive comparison. With the existing names
  \<open>a2147483647.x\<close>, \<open>a2147483648.x\<close> and \<open>a-2147483648.x\<close> and the desired name
  \<open>a2147483647.x\<close>, the largest numeric suffix that the conversion accepts is the largest
  \<open>int\<close>; the increment of line 295 leaves the range of the type, and the name that is
  returned is one of the existing names.
\<close>

theorem GetUniqueFilenameVersion_existing_at_INT_MAX:
  "UniqueFilenameVersion [''a2147483647.x'', ''a2147483648.x'', ''a-2147483648.x'']
     ''a2147483647.x'' = ''a-2147483648.x'' \<and>
   contains_CaseInsensitive [''a2147483647.x'', ''a2147483648.x'', ''a-2147483648.x'']
     (UniqueFilenameVersion [''a2147483647.x'', ''a2147483648.x'', ''a-2147483648.x'']
        ''a2147483647.x'')"
  by (simp add: allocator_eval)

text \<open>
  Claim C3, as the specification states it: on a collision the allocator returns what
  \<open>allocate\<close> describes, with the maximum taken over every numeric suffix. This fails for
  a suffix that does not fit an \<open>int\<close>: the conversion of line 281 reports a failure, the
  guard of line 283 skips the name, and the allocator falls back to value \<open>0\<close> and width
  \<open>4\<close>.
\<close>

theorem UniqueFilenameVersion_allocate_counterexample:
  "UniqueFilenameVersion [''a99999999999.x''] ''a99999999999.x'' = ''a0001.x'' \<and>
   allocate ''a99999999999.x'' [''a99999999999.x''] = ''a100000000000.x''"
proof -
  have "UniqueFilenameVersion [''a99999999999.x''] ''a99999999999.x'' = ''a0001.x''"
    by (simp add: allocator_eval)
  moreover have "allocate ''a99999999999.x'' [''a99999999999.x''] = ''a100000000000.x''"
    by (simp add: allocate_eval) (simp add: zero_pad_eval)
  ultimately show ?thesis by simp
qed

text \<open>
  Claim C3, amended. For a desired name without a line feed, and when every numeric suffix
  that fits an \<open>int\<close> is below the largest \<open>int\<close>, the allocator returns the desired name
  when it collides with no existing name, and otherwise the prefix (the base name without
  its trailing digits), followed by the maximum of the numeric suffixes that fit an \<open>int\<close>
  plus one, padded with zeros to the length of the first captured text with that maximum
  (value \<open>0\<close> and width \<open>4\<close> when there is none), followed by the extension. The two
  examples of the specification hold, in either order of the existing names.
\<close>

theorem UniqueFilenameVersion_allocate:
  assumes "LF \<notin> set filename"
    and "\<forall>c\<in>set (int_captures (strip_digits (QFileInfo_baseName filename))
                  (QFileInfo_completeSuffix filename) filenames). int (dec_value c) < INT_MAX"
  shows "UniqueFilenameVersion filenames filename = allocate_int filename filenames \<and>
    UniqueFilenameVersion [''Section0001.xhtml'', ''Section0099.xhtml''] ''Section0001.xhtml''
      = ''Section0100.xhtml'' \<and>
    UniqueFilenameVersion [''Section0099.xhtml'', ''Section0001.xhtml''] ''Section0001.xhtml''
      = ''Section0100.xhtml'' \<and>
    UniqueFilenameVersion [''chapter.xhtml''] ''chapter.xhtml'' = ''chapter0001.xhtml''"
proof -
  have "UniqueFilenameVersion filenames filename = allocate_int filename filenames"
    using assms by (rule UniqueFilenameVersion_allocate_int)
  moreover have
    "UniqueFilenameVersion [''Section0001.xhtml'', ''Section0099.xhtml''] ''Section0001.xhtml''
       = ''Section0100.xhtml''"
    by (simp add: allocator_eval)
  moreover have
    "UniqueFilenameVersion [''Section0099.xhtml'', ''Section0001.xhtml''] ''Section0001.xhtml''
       = ''Section0100.xhtml''"
    by (simp add: allocator_eval)
  moreover have
    "UniqueFilenameVersion [''chapter.xhtml''] ''chapter.xhtml'' = ''chapter0001.xhtml''"
    by (simp add: allocator_eval)
  ultimately show ?thesis by simp
qed

theorem UniqueFilenameVersion_allocate_witness:
  "int_captures ''Section'' ''xhtml'' [''section0007.XHTML'', ''Section1.xhtml'', ''Section07.xhtml'']
     = [''0007'', ''1'', ''07''] \<and>
   UniqueFilenameVersion [''section0007.XHTML'', ''Section1.xhtml'', ''Section07.xhtml'']
     ''Section1.xhtml'' = ''Section0008.xhtml'' \<and>
   allocate_int ''Section1.xhtml'' [''section0007.XHTML'', ''Section1.xhtml'', ''Section07.xhtml'']
     = ''Section0008.xhtml''"
proof -
  have lf: "LF \<notin> set ''Section1.xhtml''"
    by (simp add: LF_def)
  have caps: "int_captures ''Section'' ''xhtml''
      [''section0007.XHTML'', ''Section1.xhtml'', ''Section07.xhtml''] = [''0007'', ''1'', ''07'']"
    by (simp add: allocate_eval)
  have pre: "strip_digits (QFileInfo_baseName ''Section1.xhtml'') = ''Section''"
    "QFileInfo_completeSuffix ''Section1.xhtml'' = ''xhtml''"
    by (simp_all add: strip_digits_def string_eval)
  have below: "\<forall>c\<in>set (int_captures (strip_digits (QFileInfo_baseName ''Section1.xhtml''))
      (QFileInfo_completeSuffix ''Section1.xhtml'')
      [''section0007.XHTML'', ''Section1.xhtml'', ''Section07.xhtml'']). int (dec_value c) < INT_MAX"
    unfolding pre caps by (simp add: allocate_eval)
  have val: "allocate_int ''Section1.xhtml''
      [''section0007.XHTML'', ''Section1.xhtml'', ''Section07.xhtml''] = ''Section0008.xhtml''"
    by (simp add: allocate_eval) (simp add: zero_pad_eval)
  show ?thesis
    using UniqueFilenameVersion_allocate[OF lf below] caps val by simp
qed

section \<open>Adding a content file\<close>

text \<open>
  Claim C4. \<open>AddContentFileToFolder\<close> throws \<open>FileDoesNotExist\<close> exactly when the source
  path does not exist on disk; the exception then carries that path, and the state of the
  keeper is the one before the call.
\<close>

theorem AddContentFileToFolder_FileDoesNotExist:
  "((\<exists>path. fst (AddContentFileToFolder MTMaps exists uuid s fullfilepath update_opf mimetype)
        = Inl (FileDoesNotExist path)) \<longleftrightarrow> \<not> exists fullfilepath) \<and>
   (\<forall>path. fst (AddContentFileToFolder MTMaps exists uuid s fullfilepath update_opf mimetype)
        = Inl (FileDoesNotExist path) \<longrightarrow>
      path = fullfilepath \<and>
      snd (AddContentFileToFolder MTMaps exists uuid s fullfilepath update_opf mimetype) = s)"
  by (auto simp: AddContentFileToFolder_def Let_def split: prod.splits option.splits)

theorem AddContentFileToFolder_FileDoesNotExist_witness:
  "AddContentFileToFolder example_types (\<lambda>path. False) ''id1'' example_keeper ''/tmp/in/a.html'' True []
     = (Inl (FileDoesNotExist ''/tmp/in/a.html''), example_keeper)"
proof -
  have "fst (AddContentFileToFolder example_types (\<lambda>path. False) ''id1'' example_keeper
          ''/tmp/in/a.html'' True []) = Inl (FileDoesNotExist ''/tmp/in/a.html'')"
    by (simp add: AddContentFileToFolder_def)
  then show ?thesis
    using AddContentFileToFolder_FileDoesNotExist[of example_types "\<lambda>path. False" "''id1''"
        example_keeper "''/tmp/in/a.html''" True "[]"]
    by (metis prod.collapse)
qed

section \<open>Watching\<close>

lemma addPath_set:
  "set (addPath exists path files) = set files \<union> (if exists path then {path} else {})"
  by (auto simp: addPath_def)

lemma resume_loop_set:
  "set (foldl (\<lambda>files path. if exists path then addPath exists path files else files) files paths)
     = set files \<union> {path \<in> set paths. exists path}"
  by (induction paths arbitrary: files) (auto simp: addPath_set)

text \<open>
  Claim C9. When nothing is suspended, \<open>SuspendWatchingResources\<close> moves the whole watch
  set into \<open>m_SuspendedWatchedFiles\<close> and leaves the watch set empty; when something is
  suspended it changes nothing, so that a second call changes nothing.
  \<open>ResumeWatchingResources\<close> adds the suspended paths that exist on disk to the watch set
  and leaves nothing suspended; when nothing is suspended it changes nothing.
\<close>

theorem Suspend_Resume_WatchingResources:
  "(m_SuspendedWatchedFiles s = [] \<longrightarrow>
      m_SuspendedWatchedFiles (SuspendWatchingResources s) = m_FSWatcher s \<and>
      m_FSWatcher (SuspendWatchingResources s) = []) \<and>
   (m_SuspendedWatchedFiles s \<noteq> [] \<longrightarrow> SuspendWatchingResources s = s) \<and>
   SuspendWatchingResources (SuspendWatchingResources s) = SuspendWatchingResources s \<and>
   set (m_FSWatcher (ResumeWatchingResources exists s))
     = set (m_FSWatcher s) \<union> {path \<in> set (m_SuspendedWatchedFiles s). exists path} \<and>
   m_SuspendedWatchedFiles (ResumeWatchingResources exists s) = [] \<and>
   (m_SuspendedWatchedFiles s = [] \<longrightarrow> ResumeWatchingResources exists s = s)"
proof -
  have a: "m_SuspendedWatchedFiles s = [] \<longrightarrow>
      m_SuspendedWatchedFiles (SuspendWatchingResources s) = m_FSWatcher s \<and>
      m_FSWatcher (SuspendWatchingResources s) = []"
    by (simp add: SuspendWatchingResources_def removePaths_def Let_def)
  have b: "m_SuspendedWatchedFiles s \<noteq> [] \<longrightarrow> SuspendWatchingResources s = s"
    by (simp add: SuspendWatchingResources_def)
  have c: "SuspendWatchingResources (SuspendWatchingResources s) = SuspendWatchingResources s"
    by (simp add: SuspendWatchingResources_def removePaths_def Let_def)
  have d: "set (m_FSWatcher (ResumeWatchingResources exists s))
     = set (m_FSWatcher s) \<union> {path \<in> set (m_SuspendedWatchedFiles s). exists path}"
    by (simp add: ResumeWatchingResources_def resume_loop_set)
  have e: "m_SuspendedWatchedFiles (ResumeWatchingResources exists s) = []"
    by (simp add: ResumeWatchingResources_def)
  have f: "m_SuspendedWatchedFiles s = [] \<longrightarrow> ResumeWatchingResources exists s = s"
    by (simp add: ResumeWatchingResources_def)
  from a b c d e f show ?thesis by blast
qed

theorem Suspend_Resume_WatchingResources_witness:
  "m_SuspendedWatchedFiles (SuspendWatchingResources
      (example_keeper\<lparr>m_FSWatcher := [''/tmp/bk/OEBPS/Text/a.html'', ''/tmp/bk/OEBPS/Styles/b.css'']\<rparr>))
     = [''/tmp/bk/OEBPS/Text/a.html'', ''/tmp/bk/OEBPS/Styles/b.css''] \<and>
   m_FSWatcher (SuspendWatchingResources
      (example_keeper\<lparr>m_FSWatcher := [''/tmp/bk/OEBPS/Text/a.html'', ''/tmp/bk/OEBPS/Styles/b.css'']\<rparr>))
     = [] \<and>
   set (m_FSWatcher (ResumeWatchingResources (\<lambda>path. path = ''/tmp/bk/OEBPS/Text/a.html'')
      (SuspendWatchingResources
        (example_keeper\<lparr>m_FSWatcher := [''/tmp/bk/OEBPS/Text/a.html'', ''/tmp/bk/OEBPS/Styles/b.css'']\<rparr>))))
     = {''/tmp/bk/OEBPS/Text/a.html''}"
proof -
  let ?w = "example_keeper\<lparr>m_FSWatcher := [''/tmp/bk/OEBPS/Text/a.html'', ''/tmp/bk/OEBPS/Styles/b.css'']\<rparr>"
  have none: "m_SuspendedWatchedFiles ?w = []"
    by (simp add: example_keeper_def FolderKeeper_new_def CreateInfrastructureFiles_def
        CreateFolderStructure_def CreateKeyToLCPMap_def Let_def split: prod.splits)
  have files: "m_FSWatcher ?w = [''/tmp/bk/OEBPS/Text/a.html'', ''/tmp/bk/OEBPS/Styles/b.css'']"
    by simp
  have 1: "m_SuspendedWatchedFiles (SuspendWatchingResources ?w) = m_FSWatcher ?w"
    and 2: "m_FSWatcher (SuspendWatchingResources ?w) = []"
    using Suspend_Resume_WatchingResources[of ?w] none by blast+
  have 3: "set (m_FSWatcher (ResumeWatchingResources (\<lambda>path. path = ''/tmp/bk/OEBPS/Text/a.html'')
             (SuspendWatchingResources ?w)))
           = set (m_FSWatcher (SuspendWatchingResources ?w)) \<union>
             {path \<in> set (m_SuspendedWatchedFiles (SuspendWatchingResources ?w)).
                path = ''/tmp/bk/OEBPS/Text/a.html''}"
    using Suspend_Resume_WatchingResources[of "SuspendWatchingResources ?w"
        "\<lambda>path. path = ''/tmp/bk/OEBPS/Text/a.html''"] by blast
  show ?thesis
    unfolding 3 unfolding 1 2 files by auto
qed


section \<open>Removing a resource\<close>

lemma map_of_delete_if: "map_of (AList.delete k al) k' = (if k' = k then None else map_of al k')"
  by (simp add: delete_conv')

lemma map_of_update_if: "map_of (AList.update k v al) k' = (if k' = k then Some v else map_of al k')"
  by (simp add: update_conv')

text \<open>
  Claim C10, as the specification states it: for distinct registered resources \<open>r\<close> and
  \<open>t\<close> the removal of \<open>r\<close> leaves the entry of \<open>t\<close> in \<open>m_Path2Resource\<close> as it is. In
  \<open>example_twice\<close> the file \<open>/tmp/in/META-INF/x.xml\<close> has been added twice to a new keeper;
  both additions have returned a resource, both resources are registered, and both have
  the book path \<open>META-INF/x.xml\<close>, which leads to the second. Line 456 removes whatever
  \<open>m_Path2Resource\<close> holds under the book path of the removed resource: the removal of the
  first takes the entry of the second away, which the lookup by identifier still returns.
\<close>

theorem RemoveResource_frame_counterexample:
  "fst (AddContentFileToFolder example_types (\<lambda>path. True) ''id1'' example_keeper
          ''/tmp/in/META-INF/x.xml'' True []) = Inr 1 \<and>
   fst (AddContentFileToFolder example_types (\<lambda>path. True) ''id2''
          (snd (AddContentFileToFolder example_types (\<lambda>path. True) ''id1'' example_keeper
                  ''/tmp/in/META-INF/x.xml'' True []))
          ''/tmp/in/META-INF/x.xml'' True []) = Inr 2 \<and>
   registered example_twice 1 \<and> registered example_twice 2 \<and>
   GetRelativePath (heap example_twice ! 2) = ''META-INF/x.xml'' \<and>
   GetResourceByBookPath example_twice ''META-INF/x.xml'' = Inr 2 \<and>
   GetResourceByBookPath (RemoveResource example_twice 1) ''META-INF/x.xml''
     = Inl (ResourceDoesNotExist ''META-INF/x.xml'') \<and>
   GetResourceByIdentifier (RemoveResource example_twice 1) ''id2'' = Some 2"
proof -
  have "registered example_twice 1" "registered example_twice 2"
    "GetRelativePath (heap example_twice ! 2) = ''META-INF/x.xml''"
    "GetResourceByBookPath example_twice ''META-INF/x.xml'' = Inr 2"
    by (simp_all add: example_twice_eq example_keeper_eq registered_def
        GetResourceByBookPath_def keeper_eval string_eval)
  moreover have "GetResourceByBookPath (RemoveResource example_twice 1) ''META-INF/x.xml''
     = Inl (ResourceDoesNotExist ''META-INF/x.xml'')"
    "GetResourceByIdentifier (RemoveResource example_twice 1) ''id2'' = Some 2"
    by (simp_all add: example_twice_eq example_keeper_eq RemoveResource_def
        GetResourceByIdentifier_def GetResourceByBookPath_def keeper_eval string_eval)
  ultimately show ?thesis
    using example_twice_additions by blast
qed

text \<open>
  Claim C10, amended. Let \<open>r\<close> and \<open>t\<close> be distinct registered resources, each held by
  \<open>m_Resources\<close> under its identifier, with different book paths. \<open>RemoveResource\<close> of \<open>r\<close>
  leaves \<open>t\<close> registered, leaves what \<open>m_Path2Resource\<close> holds under the book path of \<open>t\<close>
  and what the lookup by that book path returns as they are, leaves every key of the two
  indices other than the identifier and the book path of \<open>r\<close> as it is, leaves every path
  other than the full path of \<open>r\<close> watched or unwatched, suspended or not, as it is, and
  touches no resource object.
\<close>

theorem RemoveResource_frame:
  assumes "registered s r" and "registered s t" and "r \<noteq> t"
    and "GetRelativePath (heap s ! t) \<noteq> GetRelativePath (heap s ! r)"
  shows "registered (RemoveResource s r) t \<and>
    GetResourceByIdentifier (RemoveResource s r) (GetIdentifier (heap s ! t)) = Some t \<and>
    map_of (m_Path2Resource (RemoveResource s r)) (GetRelativePath (heap s ! t))
      = map_of (m_Path2Resource s) (GetRelativePath (heap s ! t)) \<and>
    GetResourceByBookPath (RemoveResource s r) (GetRelativePath (heap s ! t))
      = GetResourceByBookPath s (GetRelativePath (heap s ! t)) \<and>
    (\<forall>identifier. identifier \<noteq> GetIdentifier (heap s ! r) \<longrightarrow>
       map_of (m_Resources (RemoveResource s r)) identifier = map_of (m_Resources s) identifier) \<and>
    (\<forall>bookpath. bookpath \<noteq> GetRelativePath (heap s ! r) \<longrightarrow>
       map_of (m_Path2Resource (RemoveResource s r)) bookpath
         = map_of (m_Path2Resource s) bookpath) \<and>
    (\<forall>path. path \<noteq> GetFullPath (heap s ! r) \<longrightarrow>
       (path \<in> set (m_FSWatcher (RemoveResource s r)) \<longleftrightarrow> path \<in> set (m_FSWatcher s)) \<and>
       (path \<in> set (m_SuspendedWatchedFiles (RemoveResource s r))
          \<longleftrightarrow> path \<in> set (m_SuspendedWatchedFiles s))) \<and>
    heap (RemoveResource s r) = heap s"
proof -
  have r: "map_of (m_Resources s) (GetIdentifier (heap s ! r)) = Some r"
    and t: "map_of (m_Resources s) (GetIdentifier (heap s ! t)) = Some t"
    and valid: "t < length (heap s)"
    using assms(1,2) by (simp_all add: registered_def)
  have ids: "GetIdentifier (heap s ! t) \<noteq> GetIdentifier (heap s ! r)"
    using r t assms(3) by auto
  note paths = assms(4)
  have 6: "heap (RemoveResource s r) = heap s"
    by (simp add: RemoveResource_def Let_def)
  have 1: "GetResourceByIdentifier (RemoveResource s r) (GetIdentifier (heap s ! t)) = Some t"
    using t ids
    by (simp add: GetResourceByIdentifier_def RemoveResource_def Let_def map_of_delete_if)
  have 0: "registered (RemoveResource s r) t"
    using 1 valid by (simp add: registered_def 6 GetResourceByIdentifier_def)
  have 2: "map_of (m_Path2Resource (RemoveResource s r)) (GetRelativePath (heap s ! t))
      = map_of (m_Path2Resource s) (GetRelativePath (heap s ! t))"
    using paths by (simp add: RemoveResource_def Let_def map_of_delete_if)
  have 7: "GetResourceByBookPath (RemoveResource s r) (GetRelativePath (heap s ! t))
      = GetResourceByBookPath s (GetRelativePath (heap s ! t))"
    using 2 by (simp add: GetResourceByBookPath_def QHash_value_def)
  have 3: "\<forall>identifier. identifier \<noteq> GetIdentifier (heap s ! r) \<longrightarrow>
       map_of (m_Resources (RemoveResource s r)) identifier = map_of (m_Resources s) identifier"
    by (simp add: RemoveResource_def Let_def map_of_delete_if)
  have 4: "\<forall>bookpath. bookpath \<noteq> GetRelativePath (heap s ! r) \<longrightarrow>
       map_of (m_Path2Resource (RemoveResource s r)) bookpath
         = map_of (m_Path2Resource s) bookpath"
    by (simp add: RemoveResource_def Let_def map_of_delete_if)
  have 5: "\<forall>path. path \<noteq> GetFullPath (heap s ! r) \<longrightarrow>
       (path \<in> set (m_FSWatcher (RemoveResource s r)) \<longleftrightarrow> path \<in> set (m_FSWatcher s)) \<and>
       (path \<in> set (m_SuspendedWatchedFiles (RemoveResource s r))
          \<longleftrightarrow> path \<in> set (m_SuspendedWatchedFiles s))"
    by (simp add: RemoveResource_def Let_def removePath_def)
  from 0 1 2 3 4 5 6 7 show ?thesis by blast
qed

theorem RemoveResource_frame_witness:
  "registered example_one 1 \<and> registered example_one 0 \<and>
   GetResourceByIdentifier (RemoveResource example_one 1) ''opf'' = Some 0 \<and>
   GetResourceByBookPath (RemoveResource example_one 1) ''OEBPS/content.opf'' = Inr 0 \<and>
   GetResourceByIdentifier (RemoveResource example_one 1) ''id1'' = None"
proof -
  have r: "registered example_one 1" and t: "registered example_one 0"
    by (simp_all add: example_eval registered_def keeper_eval string_eval)
  have names: "GetIdentifier (heap example_one ! 0) = ''opf''"
    "GetRelativePath (heap example_one ! 0) = ''OEBPS/content.opf''"
    "GetRelativePath (heap example_one ! 1) = ''OEBPS/Text/a.html''"
    by (simp_all add: example_eval keeper_eval string_eval)
  have paths: "GetRelativePath (heap example_one ! 0) \<noteq> GetRelativePath (heap example_one ! 1)"
    unfolding names by simp
  have found: "GetResourceByBookPath example_one ''OEBPS/content.opf'' = Inr 0"
    by (simp add: example_eval GetResourceByBookPath_def keeper_eval)
  have gone: "GetResourceByIdentifier (RemoveResource example_one 1) ''id1'' = None"
    by (simp add: example_eval GetResourceByIdentifier_def RemoveResource_def keeper_eval
        string_eval)
  have "1 \<noteq> (0::nat)" by simp
  from RemoveResource_frame[OF r t this paths] names found gone r t show ?thesis by simp
qed

lemma RemoveResource_idem: "RemoveResource (RemoveResource s r) r = RemoveResource s r"
  by (simp add: RemoveResource_def Let_def removePath_def delete_idem)

lemma delete_values:
  "set (AList.delete k al) = {(k', v) \<in> set al. k' \<noteq> k}"
  by (auto simp: AList.delete_eq)

text \<open>
  Claim C7, as the specification states it: after \<open>RemoveResource\<close> of a registered
  resource its file name is no longer among the registered file names and is available to
  the allocator again. In \<open>example_two\<close> the resource \<open>id1\<close> at \<open>OEBPS/Text/a.html\<close> and
  the resource \<open>id2\<close> at \<open>META-INF/a.html\<close> have the same file name, since a file of
  \<open>META-INF\<close> keeps its name (line 165). After the removal of the first the name is still
  registered, and the allocator returns another name for it.
\<close>

theorem RemoveResource_lookups_counterexample:
  "GetResourceByIdentifier example_two ''id1'' = Some 1 \<and>
   Filename (heap example_two ! 1) = ''a.html'' \<and>
   GetAllFilenames (RemoveResource example_two 1) = [''content.opf'', ''a.html''] \<and>
   GetUniqueFilenameVersion (RemoveResource example_two 1) ''a.html'' = ''a0001.html''"
  by (simp add: example_eval GetResourceByIdentifier_def RemoveResource_def keeper_eval
      allocator_eval)

text \<open>
  Claim C7, amended. After \<open>RemoveResource\<close> of a resource, the lookup by its identifier
  returns the null pointer, the lookup by its book path throws \<open>ResourceDoesNotExist\<close>, and
  a second \<open>RemoveResource\<close> of the same resource changes nothing. When no resource
  registered under another identifier has the same file name up to case, the file name is
  not among the registered file names any more, and the allocator returns it unchanged.
\<close>

theorem RemoveResource_lookups:
  "GetResourceByIdentifier (RemoveResource s r) (GetIdentifier (heap s ! r)) = None \<and>
   GetResourceByBookPath (RemoveResource s r) (GetRelativePath (heap s ! r))
     = Inl (ResourceDoesNotExist (GetRelativePath (heap s ! r))) \<and>
   RemoveResource (RemoveResource s r) r = RemoveResource s r \<and>
   ((\<forall>(identifier, t) \<in> set (m_Resources s).
        identifier \<noteq> GetIdentifier (heap s ! r) \<longrightarrow>
        toLower (Filename (heap s ! t)) \<noteq> toLower (Filename (heap s ! r))) \<longrightarrow>
      \<not> contains_CaseInsensitive (GetAllFilenames (RemoveResource s r)) (Filename (heap s ! r)) \<and>
      GetUniqueFilenameVersion (RemoveResource s r) (Filename (heap s ! r))
        = Filename (heap s ! r))"
proof -
  have 1: "GetResourceByIdentifier (RemoveResource s r) (GetIdentifier (heap s ! r)) = None"
    by (simp add: GetResourceByIdentifier_def RemoveResource_def Let_def map_of_delete_if)
  have 2: "GetResourceByBookPath (RemoveResource s r) (GetRelativePath (heap s ! r))
     = Inl (ResourceDoesNotExist (GetRelativePath (heap s ! r)))"
    by (simp add: GetResourceByBookPath_def QHash_value_def RemoveResource_def Let_def
        map_of_delete_if)
  have 3: "\<not> contains_CaseInsensitive (GetAllFilenames (RemoveResource s r)) (Filename (heap s ! r))"
    if other: "\<forall>(identifier, t) \<in> set (m_Resources s).
        identifier \<noteq> GetIdentifier (heap s ! r) \<longrightarrow>
        toLower (Filename (heap s ! t)) \<noteq> toLower (Filename (heap s ! r))"
    using other
    by (fastforce simp: contains_CaseInsensitive_def GetAllFilenames_def GetResourceList_def
        RemoveResource_def Let_def delete_values)
  have 4: "GetUniqueFilenameVersion (RemoveResource s r) (Filename (heap s ! r))
        = Filename (heap s ! r)"
    if other: "\<forall>(identifier, t) \<in> set (m_Resources s).
        identifier \<noteq> GetIdentifier (heap s ! r) \<longrightarrow>
        toLower (Filename (heap s ! t)) \<noteq> toLower (Filename (heap s ! r))"
    using 3[OF other] by (simp add: GetUniqueFilenameVersion_def UniqueFilenameVersion_def)
  from 1 2 3 4 RemoveResource_idem show ?thesis by blast
qed

theorem RemoveResource_lookups_witness:
  "GetAllFilenames (RemoveResource example_one 1) = [''content.opf''] \<and>
   GetUniqueFilenameVersion (RemoveResource example_one 1) (Filename (heap example_one ! 1))
     = ''a.html''"
proof -
  have other: "\<forall>(identifier, t) \<in> set (m_Resources example_one).
        identifier \<noteq> GetIdentifier (heap example_one ! 1) \<longrightarrow>
        toLower (Filename (heap example_one ! t)) \<noteq> toLower (Filename (heap example_one ! 1))"
    by (simp add: example_eval keeper_eval string_eval)
  have name: "Filename (heap example_one ! 1) = ''a.html''"
    by (simp add: example_eval keeper_eval string_eval)
  have names: "GetAllFilenames (RemoveResource example_one 1) = [''content.opf'']"
    by (simp add: example_eval RemoveResource_def keeper_eval string_eval)
  show ?thesis
    using RemoveResource_lookups[of example_one 1] other name names by simp
qed


section \<open>Renaming a resource\<close>

lemma QString_right_under:
  "under folder path \<Longrightarrow>
   QString_right path (int (length path) - int (length folder) - 1)
     = drop (length folder + 1) path"
proof -
  assume u: "under folder path"
  have "length (take (length folder + 1) path) = length (folder @ ''/'')"
    using u by (simp add: under_def)
  then have len: "length folder + 1 \<le> length path" by simp
  then show ?thesis
    by (auto simp: QString_right_def nat_diff_distrib intro!: arg_cong2[where f = drop])
qed

lemma under_decompose: "under folder path \<Longrightarrow> path = folder @ ''/'' @ drop (length folder + 1) path"
  by (metis append_take_drop_id append.assoc under_def)

lemma under_drop_inject:
  "under folder p \<Longrightarrow> under folder q \<Longrightarrow>
   drop (length folder + 1) p = drop (length folder + 1) q \<Longrightarrow> p = q"
  by (metis under_decompose)

lemma GetResourceByBookPath_Inr:
  "GetResourceByBookPath s bookpath = Inr r \<longleftrightarrow> map_of (m_Path2Resource s) bookpath = Some (Some r)"
  by (auto simp: GetResourceByBookPath_def QHash_value_def split: option.splits)

lemma GetResourceByBookPath_Inl:
  "GetResourceByBookPath s bookpath = Inl e \<longleftrightarrow>
     e = ResourceDoesNotExist bookpath \<and>
     (map_of (m_Path2Resource s) bookpath = None \<or> map_of (m_Path2Resource s) bookpath = Some None)"
  by (auto simp: GetResourceByBookPath_def QHash_value_def split: option.splits)

lemma distinct_singleton: "distinct xs \<Longrightarrow> set xs = {x} \<Longrightarrow> xs = [x]"
proof (cases xs)
  case Nil
  assume "set xs = {x}"
  with Nil show ?thesis by simp
next
  case (Cons y ys)
  assume d: "distinct xs" and s: "set xs = {x}"
  from s Cons have y: "y = x" by auto
  from s Cons d have "set ys \<subseteq> {x}" "x \<notin> set ys" using y by auto
  then have "ys = []" by (cases ys) auto
  with y Cons show ?thesis by simp
qed

lemma distinct_keys_filter: "distinct (map fst al) \<Longrightarrow> distinct (filter P al)"
  by (simp add: distinct_map)

text \<open>
  Claim C8, as the specification states it: after the rename of a registered resource the
  lookup by the new book path returns the resource. In \<open>example_twice\<close> the file
  \<open>/tmp/in/META-INF/x.xml\<close> has been added twice to a new keeper; both additions have
  returned a resource, and the book path \<open>META-INF/x.xml\<close> of both leads to the second.
  Lines 471 to 473 move whatever \<open>m_Path2Resource\<close> holds under the old book path to the
  new one: after the rename of the first resource to \<open>y.xml\<close> the lookup by its new book
  path returns the second resource, whose own book path is no longer found, and the index
  has no entry for the first.
\<close>

theorem rename_resource_rekeys_counterexample:
  "fst (AddContentFileToFolder example_types (\<lambda>path. True) ''id1'' example_keeper
          ''/tmp/in/META-INF/x.xml'' True []) = Inr 1 \<and>
   fst (AddContentFileToFolder example_types (\<lambda>path. True) ''id2''
          (snd (AddContentFileToFolder example_types (\<lambda>path. True) ''id1'' example_keeper
                  ''/tmp/in/META-INF/x.xml'' True []))
          ''/tmp/in/META-INF/x.xml'' True []) = Inr 2 \<and>
   registered example_twice 1 \<and>
   GetFullPath (heap example_twice ! 1) = ''/tmp/bk/META-INF/x.xml'' \<and>
   GetRelativePath (heap (rename_resource example_twice 1 ''/tmp/bk/META-INF/y.xml'') ! 1)
     = ''META-INF/y.xml'' \<and>
   GetResourceByBookPath (rename_resource example_twice 1 ''/tmp/bk/META-INF/y.xml'')
     ''META-INF/y.xml'' = Inr 2 \<and>
   GetRelativePath (heap (rename_resource example_twice 1 ''/tmp/bk/META-INF/y.xml'') ! 2)
     = ''META-INF/x.xml'' \<and>
   GetResourceByBookPath (rename_resource example_twice 1 ''/tmp/bk/META-INF/y.xml'')
     ''META-INF/x.xml'' = Inl (ResourceDoesNotExist ''META-INF/x.xml'') \<and>
   filter (\<lambda>(bookpath, res). res = Some 1)
     (m_Path2Resource (rename_resource example_twice 1 ''/tmp/bk/META-INF/y.xml'')) = []"
proof -
  have "registered example_twice 1"
    "GetFullPath (heap example_twice ! 1) = ''/tmp/bk/META-INF/x.xml''"
    by (simp_all add: example_twice_eq example_keeper_eq registered_def keeper_eval string_eval)
  moreover have "rename_resource example_twice 1 ''/tmp/bk/META-INF/y.xml'' =
    example_twice
      \<lparr>heap := (heap example_twice)
         [1 := (heap example_twice ! 1)\<lparr>m_FullFilePath := ''/tmp/bk/META-INF/y.xml''\<rparr>],
       m_Path2Resource := [(''OEBPS/content.opf'', Some 0), (''META-INF/y.xml'', Some 2)]\<rparr>"
    by (simp add: example_twice_eq example_keeper_eq rename_resource_def ResourceRenamed_def
        keeper_eval string_eval)
  then have "GetRelativePath (heap (rename_resource example_twice 1 ''/tmp/bk/META-INF/y.xml'') ! 1)
     = ''META-INF/y.xml''"
    "GetResourceByBookPath (rename_resource example_twice 1 ''/tmp/bk/META-INF/y.xml'')
     ''META-INF/y.xml'' = Inr 2"
    "GetRelativePath (heap (rename_resource example_twice 1 ''/tmp/bk/META-INF/y.xml'') ! 2)
     = ''META-INF/x.xml''"
    "GetResourceByBookPath (rename_resource example_twice 1 ''/tmp/bk/META-INF/y.xml'')
     ''META-INF/x.xml'' = Inl (ResourceDoesNotExist ''META-INF/x.xml'')"
    "filter (\<lambda>(bookpath, res). res = Some 1)
     (m_Path2Resource (rename_resource example_twice 1 ''/tmp/bk/META-INF/y.xml'')) = []"
    by (simp_all add: example_twice_eq example_keeper_eq GetResourceByBookPath_def
        keeper_eval string_eval)
  ultimately show ?thesis
    using example_twice_additions by blast
qed

text \<open>
  Claim C8, amended. Let \<open>m_Path2Resource\<close> hold a resource of this keeper under its book
  path and under no other key, and let its full path change to another path, both paths
  under the main folder. After the rename the lookup by the old book path throws
  \<open>ResourceDoesNotExist\<close>, the lookup by the new book path returns the resource, and the
  entry under the new book path is the only entry of the index that holds the resource;
  \<open>m_Resources\<close> is as before, and so is the identifier of the resource: a registered
  resource stays registered.
\<close>

theorem rename_resource_rekeys:
  assumes valid: "r < length (heap s)"
    and own: "m_MainFolder (heap s ! r) = m_FullPathToMainFolder s"
    and keys: "distinct (map fst (m_Path2Resource s))"
    and reg: "GetResourceByBookPath s (GetRelativePath (heap s ! r)) = Inr r"
    and once: "\<forall>bookpath. GetResourceByBookPath s bookpath = Inr r \<longrightarrow>
                 bookpath = GetRelativePath (heap s ! r)"
    and old: "under (m_FullPathToMainFolder s) (GetFullPath (heap s ! r))"
    and new: "under (m_FullPathToMainFolder s) new_full_path"
    and changes: "new_full_path \<noteq> GetFullPath (heap s ! r)"
  shows "GetFullPath (heap (rename_resource s r new_full_path) ! r) = new_full_path \<and>
    GetRelativePath (heap (rename_resource s r new_full_path) ! r)
      = drop (length (m_FullPathToMainFolder s) + 1) new_full_path \<and>
    GetResourceByBookPath (rename_resource s r new_full_path) (GetRelativePath (heap s ! r))
      = Inl (ResourceDoesNotExist (GetRelativePath (heap s ! r))) \<and>
    GetResourceByBookPath (rename_resource s r new_full_path)
        (GetRelativePath (heap (rename_resource s r new_full_path) ! r)) = Inr r \<and>
    filter (\<lambda>(bookpath, res). res = Some r) (m_Path2Resource (rename_resource s r new_full_path))
      = [(GetRelativePath (heap (rename_resource s r new_full_path) ! r), Some r)] \<and>
    m_Resources (rename_resource s r new_full_path) = m_Resources s \<and>
    GetIdentifier (heap (rename_resource s r new_full_path) ! r) = GetIdentifier (heap s ! r)"
proof -
  let ?main = "m_FullPathToMainFolder s"
  let ?old = "GetRelativePath (heap s ! r)"
  let ?new = "drop (length ?main + 1) new_full_path"
  let ?s' = "rename_resource s r new_full_path"
  have old_rel: "?old = drop (length ?main + 1) (GetFullPath (heap s ! r))"
    using QString_right_under[OF old] own by (simp add: GetRelativePath_def GetFullPath_def)
  have book_path: "QString_right (GetFullPath (heap s ! r))
      (int (length (GetFullPath (heap s ! r))) - int (length ?main) - 1) = ?old"
    using own by (simp add: GetRelativePath_def GetFullPath_def)
  have neq: "?new \<noteq> ?old"
    using under_drop_inject[OF new old] changes old_rel by auto
  have entry: "map_of (m_Path2Resource s) ?old = Some (Some r)"
    using reg by (simp add: GetResourceByBookPath_Inr)
  have heap': "heap ?s' = (heap s)[r := (heap s ! r)\<lparr>m_FullFilePath := new_full_path\<rparr>]"
    by (simp add: rename_resource_def ResourceRenamed_def Let_def split: prod.splits)
  have obj: "heap ?s' ! r = (heap s ! r)\<lparr>m_FullFilePath := new_full_path\<rparr>"
    using valid by (simp add: heap')
  have new_rel: "GetRelativePath (heap ?s' ! r) = ?new"
    using QString_right_under[OF new] own by (simp add: obj GetRelativePath_def)
  have index: "m_Path2Resource ?s' = AList.update ?new (Some r) (AList.delete ?old (m_Path2Resource s))"
    using valid own entry QString_right_under[OF new] book_path
    by (simp add: rename_resource_def ResourceRenamed_def Let_def QHash_subscript_def
        GetRelativePath_def)
  have 1: "GetFullPath (heap ?s' ! r) = new_full_path"
    by (simp add: obj GetFullPath_def)
  have 3: "GetResourceByBookPath ?s' ?old = Inl (ResourceDoesNotExist ?old)"
    using neq by (simp add: GetResourceByBookPath_Inl index map_of_update_if map_of_delete_if)
  have 4: "GetResourceByBookPath ?s' ?new = Inr r"
    by (simp add: GetResourceByBookPath_Inr index map_of_update_if)
  have d: "distinct (map fst (m_Path2Resource ?s'))"
    using keys by (simp add: index distinct_update distinct_delete)
  have "set (filter (\<lambda>(bookpath, res). res = Some r) (m_Path2Resource ?s')) = {(?new, Some r)}"
  proof (intro equalityI subsetI)
    fix x
    assume "x \<in> set (filter (\<lambda>(bookpath, res). res = Some r) (m_Path2Resource ?s'))"
    then obtain k where x: "x = (k, Some r)" and mem: "(k, Some r) \<in> set (m_Path2Resource ?s')"
      by auto
    from mem d have "map_of (m_Path2Resource ?s') k = Some (Some r)" by simp
    then have "k = ?new \<or> (k \<noteq> ?old \<and> map_of (m_Path2Resource s) k = Some (Some r))"
      by (simp add: index map_of_update_if map_of_delete_if split: if_splits)
    then have "k = ?new"
      using once by (auto simp: GetResourceByBookPath_Inr)
    then show "x \<in> {(?new, Some r)}" using x by simp
  next
    fix x
    assume "x \<in> {(?new, Some r)}"
    then have x: "x = (?new, Some r)" by simp
    have "map_of (m_Path2Resource ?s') ?new = Some (Some r)"
      by (simp add: index map_of_update_if)
    then have "(?new, Some r) \<in> set (m_Path2Resource ?s')" by (rule map_of_SomeD)
    then show "x \<in> set (filter (\<lambda>(bookpath, res). res = Some r) (m_Path2Resource ?s'))"
      using x by simp
  qed
  then have 5: "filter (\<lambda>(bookpath, res). res = Some r) (m_Path2Resource ?s') = [(?new, Some r)]"
    using distinct_keys_filter[OF d] by (intro distinct_singleton) auto
  have 6: "m_Resources ?s' = m_Resources s"
    by (simp add: rename_resource_def ResourceRenamed_def Let_def split: prod.splits)
  have 7: "GetIdentifier (heap ?s' ! r) = GetIdentifier (heap s ! r)"
    by (simp add: obj GetIdentifier_def)
  from 1 new_rel 3 4 5 6 7 show ?thesis by simp
qed

theorem rename_resource_rekeys_witness:
  "GetResourceByBookPath (rename_resource example_one 1 ''/tmp/bk/OEBPS/Text/b.html'')
     ''OEBPS/Text/a.html'' = Inl (ResourceDoesNotExist ''OEBPS/Text/a.html'') \<and>
   GetResourceByBookPath (rename_resource example_one 1 ''/tmp/bk/OEBPS/Text/b.html'')
     ''OEBPS/Text/b.html'' = Inr 1"
proof -
  have valid: "1 < length (heap example_one)"
    by (simp add: example_eval)
  have own: "m_MainFolder (heap example_one ! 1) = m_FullPathToMainFolder example_one"
    by (simp add: example_eval)
  have keys: "distinct (map fst (m_Path2Resource example_one))"
    by (simp add: example_eval)
  have old_rel: "GetRelativePath (heap example_one ! 1) = ''OEBPS/Text/a.html''"
    by (simp add: example_eval keeper_eval string_eval)
  have reg: "GetResourceByBookPath example_one (GetRelativePath (heap example_one ! 1)) = Inr 1"
    unfolding old_rel by (simp add: example_eval GetResourceByBookPath_def keeper_eval)
  have once: "\<forall>bookpath. GetResourceByBookPath example_one bookpath = Inr 1 \<longrightarrow>
      bookpath = GetRelativePath (heap example_one ! 1)"
    unfolding old_rel
    by (simp add: example_eval GetResourceByBookPath_def keeper_eval split: if_splits)
  have old: "under (m_FullPathToMainFolder example_one) (GetFullPath (heap example_one ! 1))"
    by (simp add: example_eval under_def keeper_eval)
  have new: "under (m_FullPathToMainFolder example_one) ''/tmp/bk/OEBPS/Text/b.html''"
    by (simp add: example_eval under_def)
  have changes: "''/tmp/bk/OEBPS/Text/b.html'' \<noteq> GetFullPath (heap example_one ! 1)"
    by (simp add: example_eval keeper_eval)
  have main: "drop (length (m_FullPathToMainFolder example_one) + 1) ''/tmp/bk/OEBPS/Text/b.html''
      = ''OEBPS/Text/b.html''"
    by (simp add: example_eval)
  note R = rename_resource_rekeys[OF valid own keys reg once old new changes]
  let ?s' = "rename_resource example_one 1 ''/tmp/bk/OEBPS/Text/b.html''"
  from R have a: "GetRelativePath (heap ?s' ! 1) = ''OEBPS/Text/b.html''"
    unfolding main by blast
  from R have b: "GetResourceByBookPath ?s' ''OEBPS/Text/a.html''
      = Inl (ResourceDoesNotExist ''OEBPS/Text/a.html'')"
    unfolding old_rel by blast
  from R have c: "GetResourceByBookPath ?s' (GetRelativePath (heap ?s' ! 1)) = Inr 1"
    by blast
  from b c show ?thesis unfolding a by blast
qed


section \<open>Classification never fails\<close>

text \<open>The object that a successful \<open>AddContentFileToFolder\<close> leaves in the store.\<close>

lemma AddContentFileToFolder_success:
  assumes "exists fullfilepath" and "m_OPF s = Some opf"
    and "classify_and_place MTMaps s fullfilepath mimetype = (new_file_path, type, mt, lcppath)"
  shows "AddContentFileToFolder MTMaps exists uuid s fullfilepath update_opf mimetype =
      (Inr (length (heap s)),
       s\<lparr>heap := heap s @
            [\<lparr>m_Identifier = uuid, m_MainFolder = m_FullPathToMainFolder s,
              m_FullFilePath = new_file_path, m_Type = type,
              m_EpubVersion = m_EpubVersion (heap s ! opf), m_MediaType = mt,
              m_LCP = lcppath\<rparr>],
         m_Resources := AList.update uuid (length (heap s)) (m_Resources s),
         m_Path2Resource :=
           AList.update
             (QString_right new_file_path
               (int (length new_file_path) - int (length (m_FullPathToMainFolder s)) - 1))
             (Some (length (heap s))) (m_Path2Resource s)\<rparr>)"
  using assms
  by (simp add: AddContentFileToFolder_def Let_def new_Resource_def GetIdentifier_def)

lemma classify_and_place_unknown:
  assumes "\<not> contains fullfilepath FILE_EXCEPTIONS"
    and "unknown_to_classification MTMaps
           (toLower (QFileInfo_suffix (normalise_file_path fullfilepath))) mimetype"
  shows "\<exists>mt. classify_and_place MTMaps s fullfilepath mimetype =
     (m_FullPathToMiscFolder s @ ''/'' @
        GetUniqueFilenameVersion s (QFileInfo_fileName (normalise_file_path fullfilepath)),
      GenericResourceType, mt, QHash_value (m_KeyToLCP s) ''misc'' [])"
  using assms
  by (simp add: classify_and_place_def unknown_to_classification_def place_resource_def
      GetResourceDescFromMediaType_def QHash_value_def Let_def)

text \<open>
  Claim C5, as the specification states it: a file that exists and whose extension and
  media type hint are unknown to the classification table is registered as a generic
  resource under the miscellaneous folder. The file \<open>/tmp/in/META-INF/foo.zzz\<close> is
  unknown to the table of the example; it is registered, as a generic resource, but the
  branch of lines 160 to 166 places it at \<open>/tmp/bk/META-INF/foo.zzz\<close>, which is not under the
  miscellaneous folder.
\<close>

theorem AddContentFileToFolder_registers_counterexample:
  "unknown_to_classification example_types
     (toLower (QFileInfo_suffix (normalise_file_path ''/tmp/in/META-INF/foo.zzz''))) [] \<and>
   fst (AddContentFileToFolder example_types (\<lambda>path. True) ''id1'' example_keeper
          ''/tmp/in/META-INF/foo.zzz'' True []) = Inr 1 \<and>
   GetFullPath (heap (snd (AddContentFileToFolder example_types (\<lambda>path. True) ''id1''
          example_keeper ''/tmp/in/META-INF/foo.zzz'' True [])) ! 1) = ''/tmp/bk/META-INF/foo.zzz'' \<and>
   m_FullPathToMiscFolder example_keeper = ''/tmp/bk/OEBPS/Misc'' \<and>
   \<not> under (m_FullPathToMiscFolder example_keeper)
     (GetFullPath (heap (snd (AddContentFileToFolder example_types (\<lambda>path. True) ''id1''
          example_keeper ''/tmp/in/META-INF/foo.zzz'' True [])) ! 1))"
  by (simp add: unknown_to_classification_def under_def example_eval keeper_eval allocator_eval)

text \<open>
  Claim C5, amended. For a keeper with its OPF and a source file that exists,
  \<open>AddContentFileToFolder\<close> throws nothing: it returns a new resource with the given
  identifier, which the lookup by that identifier and the lookup by its book path return.
  When the path of the file does not contain \<open>META-INF\<close> and extension and media type hint
  are unknown to the classification table, the resource is a generic resource, and its
  path is the unique file name under the miscellaneous folder.
\<close>

theorem AddContentFileToFolder_registers:
  assumes "exists fullfilepath" and "m_OPF s = Some opf"
  shows "(let (result, s') =
            AddContentFileToFolder MTMaps exists uuid s fullfilepath update_opf mimetype;
          resource = length (heap s)
      in result = Inr resource \<and>
         heap s' = heap s @ [heap s' ! resource] \<and>
         GetIdentifier (heap s' ! resource) = uuid \<and>
         GetResourceByIdentifier s' uuid = Some resource \<and>
         GetResourceByBookPath s' (GetRelativePath (heap s' ! resource)) = Inr resource \<and>
         (\<not> contains fullfilepath FILE_EXCEPTIONS \<and>
          unknown_to_classification MTMaps
            (toLower (QFileInfo_suffix (normalise_file_path fullfilepath))) mimetype \<longrightarrow>
            m_Type (heap s' ! resource) = GenericResourceType \<and>
            GetFullPath (heap s' ! resource) =
              m_FullPathToMiscFolder s @ ''/'' @
                GetUniqueFilenameVersion s (QFileInfo_fileName (normalise_file_path fullfilepath)) \<and>
            under (m_FullPathToMiscFolder s) (GetFullPath (heap s' ! resource))))"
proof -
  obtain new_file_path type mt lcppath where
    c: "classify_and_place MTMaps s fullfilepath mimetype = (new_file_path, type, mt, lcppath)"
    by (cases "classify_and_place MTMaps s fullfilepath mimetype") auto
  note R = AddContentFileToFolder_success[where exists = exists and fullfilepath = fullfilepath
      and uuid = uuid and update_opf = update_opf, OF assms c]
  have unknown: "type = GenericResourceType \<and>
      new_file_path = m_FullPathToMiscFolder s @ ''/'' @
        GetUniqueFilenameVersion s (QFileInfo_fileName (normalise_file_path fullfilepath))"
    if "\<not> contains fullfilepath FILE_EXCEPTIONS"
      and "unknown_to_classification MTMaps
        (toLower (QFileInfo_suffix (normalise_file_path fullfilepath))) mimetype"
    using classify_and_place_unknown[OF that, of s] c by auto
  show ?thesis
    using unknown
    by (auto simp: R Let_def GetIdentifier_def GetResourceByIdentifier_def
        GetResourceByBookPath_Inr GetRelativePath_def GetFullPath_def update_conv' under_def)
qed

theorem AddContentFileToFolder_registers_witness:
  "AddContentFileToFolder example_types (\<lambda>path. True) ''id1'' example_keeper
     ''/tmp/in/notes.zzz'' True [] =
   (Inr 1,
    snd (AddContentFileToFolder example_types (\<lambda>path. True) ''id1'' example_keeper
      ''/tmp/in/notes.zzz'' True [])) \<and>
   GetFullPath (heap (snd (AddContentFileToFolder example_types (\<lambda>path. True) ''id1''
      example_keeper ''/tmp/in/notes.zzz'' True [])) ! 1) = ''/tmp/bk/OEBPS/Misc/notes.zzz''"
proof -
  have ex: "(\<lambda>path. True) ''/tmp/in/notes.zzz''" by simp
  have opf: "m_OPF example_keeper = Some 0" by (simp add: example_eval)
  have meta: "\<not> contains ''/tmp/in/notes.zzz'' FILE_EXCEPTIONS"
    by (simp add: FILE_EXCEPTIONS_def)
  have unknown: "unknown_to_classification example_types
      (toLower (QFileInfo_suffix (normalise_file_path ''/tmp/in/notes.zzz''))) []"
    by (simp add: unknown_to_classification_def keeper_eval string_eval)
  have len: "length (heap example_keeper) = 1" by (simp add: example_eval)
  have name: "m_FullPathToMiscFolder example_keeper @ ''/'' @
      GetUniqueFilenameVersion example_keeper
        (QFileInfo_fileName (normalise_file_path ''/tmp/in/notes.zzz''))
      = ''/tmp/bk/OEBPS/Misc/notes.zzz''"
    by (simp add: example_eval keeper_eval allocator_eval)
  show ?thesis
    using AddContentFileToFolder_registers[where exists = "\<lambda>path. True"
        and fullfilepath = "''/tmp/in/notes.zzz''" and MTMaps = example_types
        and uuid = "''id1''" and update_opf = True and mimetype = "[]", OF ex opf]
      meta unknown
    unfolding len name
    by (auto simp: Let_def split: prod.splits)
qed


section \<open>The highest reading order\<close>

lemma count_html_filter:
  "count_html objects resources n =
     n + int (length (filter (\<lambda>resource. m_Type (objects ! resource) = HTMLResourceType) resources))"
  by (induction resources arbitrary: n) auto

lemma GetHighestReadingOrder_filter:
  "GetHighestReadingOrder s =
     int (length (filter (\<lambda>resource. m_Type (heap s ! resource) = HTMLResourceType)
            (GetResourceList s))) - 1"
  by (simp add: GetHighestReadingOrder_def count_html_filter)

lemma update_fresh: "k \<notin> set (map fst al) \<Longrightarrow> AList.update k v al = al @ [(k, v)]"
  by (induction al) auto

lemma AddContentFileToFolder_reading_order:
  assumes r: "AddContentFileToFolder MTMaps exists uuid s fullfilepath update_opf mimetype
      = (Inr resource, s')"
    and fresh: "uuid \<notin> set (map fst (m_Resources s))"
    and valid: "pointers_valid s"
  shows "GetHighestReadingOrder s' =
      GetHighestReadingOrder s + (if m_Type (heap s' ! resource) = HTMLResourceType then 1 else 0)"
    and "pointers_valid s'"
    and "set (map fst (m_Resources s')) = insert uuid (set (map fst (m_Resources s)))"
    and "resource < length (heap s')"
    and "\<exists>object. heap s' = heap s @ [object]"
proof -
  from r have ex: "exists fullfilepath"
    by (auto simp: AddContentFileToFolder_def split: if_splits)
  from r ex obtain opf where opf: "m_OPF s = Some opf"
    by (cases "m_OPF s") (auto simp: AddContentFileToFolder_def Let_def split: prod.splits)
  obtain new_file_path type mt lcppath where
    c: "classify_and_place MTMaps s fullfilepath mimetype = (new_file_path, type, mt, lcppath)"
    by (cases "classify_and_place MTMaps s fullfilepath mimetype") auto
  note R = AddContentFileToFolder_success[where exists = exists and fullfilepath = fullfilepath
      and uuid = uuid and update_opf = update_opf, OF ex opf c]
  from r R have res: "resource = length (heap s)" by simp
  from r R obtain object where
    heap': "heap s' = heap s @ [object]"
    and ids: "m_Resources s' = AList.update uuid (length (heap s)) (m_Resources s)"
    by auto
  have list: "GetResourceList s' = GetResourceList s @ [length (heap s)]"
    using fresh by (simp add: GetResourceList_def ids update_fresh)
  have same: "filter (\<lambda>resource. m_Type (heap s' ! resource) = HTMLResourceType) (GetResourceList s)
      = filter (\<lambda>resource. m_Type (heap s ! resource) = HTMLResourceType) (GetResourceList s)"
    using valid by (intro filter_cong) (auto simp: heap' pointers_valid_def nth_append)
  show "GetHighestReadingOrder s' =
      GetHighestReadingOrder s + (if m_Type (heap s' ! resource) = HTMLResourceType then 1 else 0)"
    by (simp add: GetHighestReadingOrder_filter list same res)
  show "pointers_valid s'"
    using valid by (auto simp: pointers_valid_def list heap')
  show "set (map fst (m_Resources s')) = insert uuid (set (map fst (m_Resources s)))"
    using fresh by (simp add: ids update_fresh)
  show "resource < length (heap s')"
    by (simp add: res heap')
  show "\<exists>object. heap s' = heap s @ [object]"
    using heap' by blast
qed

lemma add_files_heap:
  "add_files MTMaps exists s files = (Inr resources, s') \<Longrightarrow>
   \<exists>objects. heap s' = heap s @ objects"
proof (induction files arbitrary: s resources s')
  case Nil
  then show ?case by simp
next
  case (Cons entry files)
  obtain uuid fullfilepath mimetype where entry: "entry = (uuid, fullfilepath, mimetype)"
    by (cases entry) auto
  from Cons.prems obtain resource s1 rest where
    first: "AddContentFileToFolder MTMaps exists uuid s fullfilepath True mimetype = (Inr resource, s1)"
    and rest: "add_files MTMaps exists s1 files = (Inr rest, s')"
    by (auto simp: entry split: prod.splits sum.splits)
  from first obtain object where "heap s1 = heap s @ [object]"
    by (auto simp: AddContentFileToFolder_def Let_def split: if_splits prod.splits option.splits)
  moreover from Cons.IH[OF rest] obtain objects where "heap s' = heap s1 @ objects" by blast
  ultimately show ?case by simp
qed

lemma add_files_reading_order:
  assumes "add_files MTMaps exists s files = (Inr resources, s')"
    and "distinct (map fst files)"
    and "set (map fst files) \<inter> set (map fst (m_Resources s)) = {}"
    and "pointers_valid s"
  shows "GetHighestReadingOrder s' =
      GetHighestReadingOrder s +
      int (length (filter (\<lambda>resource. m_Type (heap s' ! resource) = HTMLResourceType) resources))"
  using assms
proof (induction files arbitrary: s resources s')
  case Nil
  then show ?case by simp
next
  case (Cons entry files)
  obtain uuid fullfilepath mimetype where entry: "entry = (uuid, fullfilepath, mimetype)"
    by (cases entry) auto
  from Cons.prems(1) obtain resource s1 rest where
    first: "AddContentFileToFolder MTMaps exists uuid s fullfilepath True mimetype = (Inr resource, s1)"
    and rest: "add_files MTMaps exists s1 files = (Inr rest, s')"
    and resources: "resources = resource # rest"
    by (auto simp: entry split: prod.splits sum.splits)
  have fresh: "uuid \<notin> set (map fst (m_Resources s))"
    using Cons.prems(3) by (auto simp: entry)
  note A = AddContentFileToFolder_reading_order[OF first fresh Cons.prems(4)]
  have "uuid \<notin> set (map fst files)"
    using Cons.prems(2) by (simp add: entry)
  moreover have "set (map fst files) \<inter> set (map fst (m_Resources s)) = {}"
    using Cons.prems(3) by auto
  ultimately have disj: "set (map fst files) \<inter> set (map fst (m_Resources s1)) = {}"
    unfolding A(3) by blast
  have d: "distinct (map fst files)" using Cons.prems(2) by simp
  note IH = Cons.IH[OF rest d disj A(2)]
  from add_files_heap[OF rest] obtain objects where "heap s' = heap s1 @ objects" by blast
  then have same: "heap s' ! resource = heap s1 ! resource"
    using A(4) by (simp add: nth_append)
  show ?case
    by (simp add: IH A(1) resources same)
qed

lemma FolderKeeper_new_resources:
  "m_Resources (FolderKeeper_new temp_folder version uuid) = [(uuid, 0)]"
  "length (heap (FolderKeeper_new temp_folder version uuid)) = 1"
  "m_Type (heap (FolderKeeper_new temp_folder version uuid) ! 0) = OPFResourceType"
  by (simp_all add: FolderKeeper_new_def CreateInfrastructureFiles_def CreateFolderStructure_def
      CreateKeyToLCPMap_def QHash_subscript_def new_Resource_def GetIdentifier_def Let_def)

text \<open>
  Claim C6. \<open>GetHighestReadingOrder\<close> returns the number of registered resources of the
  kind \<open>HTMLResourceType\<close> minus one; it returns \<open>-1\<close> when no registered resource is of
  that kind, whatever else is registered, and for the keeper as its constructor leaves it.
  After a sequence of successful additions with fresh identifiers, it has grown by the
  number of the new resources of that kind: starting from a new keeper, it is that number
  minus one.
\<close>

theorem GetHighestReadingOrder_count:
  "GetHighestReadingOrder s =
     int (length (filter (\<lambda>resource. m_Type (heap s ! resource) = HTMLResourceType)
            (GetResourceList s))) - 1 \<and>
   ((\<forall>resource \<in> set (GetResourceList s). m_Type (heap s ! resource) \<noteq> HTMLResourceType) \<longrightarrow>
      GetHighestReadingOrder s = - 1) \<and>
   GetHighestReadingOrder (FolderKeeper_new temp_folder version opf_uuid) = - 1 \<and>
   (add_files MTMaps exists s files = (Inr resources, s') \<and> pointers_valid s \<and>
    distinct (map fst files) \<and> set (map fst files) \<inter> set (map fst (m_Resources s)) = {} \<longrightarrow>
      GetHighestReadingOrder s' =
        GetHighestReadingOrder s +
        int (length (filter (\<lambda>resource. m_Type (heap s' ! resource) = HTMLResourceType)
               resources))) \<and>
   (add_files MTMaps exists (FolderKeeper_new temp_folder version opf_uuid) files
      = (Inr resources, s') \<and>
    distinct (map fst files) \<and> opf_uuid \<notin> set (map fst files) \<longrightarrow>
      GetHighestReadingOrder s' =
        int (length (filter (\<lambda>resource. m_Type (heap s' ! resource) = HTMLResourceType)
               resources)) - 1)"
proof -
  let ?new = "FolderKeeper_new temp_folder version opf_uuid"
  have 1: "GetHighestReadingOrder s =
     int (length (filter (\<lambda>resource. m_Type (heap s ! resource) = HTMLResourceType)
            (GetResourceList s))) - 1"
    by (rule GetHighestReadingOrder_filter)
  have 2: "(\<forall>resource \<in> set (GetResourceList s). m_Type (heap s ! resource) \<noteq> HTMLResourceType) \<longrightarrow>
      GetHighestReadingOrder s = - 1"
    by (simp add: GetHighestReadingOrder_filter filter_empty_conv[THEN iffD2])
  have 3: "GetHighestReadingOrder ?new = - 1"
    by (simp add: GetHighestReadingOrder_filter GetResourceList_def FolderKeeper_new_resources)
  have valid: "pointers_valid ?new"
    by (simp add: pointers_valid_def GetResourceList_def FolderKeeper_new_resources)
  have 4: "GetHighestReadingOrder s' =
        GetHighestReadingOrder s +
        int (length (filter (\<lambda>resource. m_Type (heap s' ! resource) = HTMLResourceType)
               resources))"
    if "add_files MTMaps exists s files = (Inr resources, s')" "pointers_valid s"
      "distinct (map fst files)" "set (map fst files) \<inter> set (map fst (m_Resources s)) = {}"
    using add_files_reading_order[OF that(1,3,4,2)] .
  have 5: "GetHighestReadingOrder s' =
        int (length (filter (\<lambda>resource. m_Type (heap s' ! resource) = HTMLResourceType)
               resources)) - 1"
    if a: "add_files MTMaps exists ?new files = (Inr resources, s')"
      and d: "distinct (map fst files)" and n: "opf_uuid \<notin> set (map fst files)"
  proof -
    have "set (map fst files) \<inter> set (map fst (m_Resources ?new)) = {}"
      using n by (simp add: FolderKeeper_new_resources)
    from add_files_reading_order[OF a d this valid] 3 show ?thesis by simp
  qed
  from 1 2 3 4 5 show ?thesis by blast
qed

theorem GetHighestReadingOrder_count_witness:
  "fst (add_files example_types (\<lambda>path. True) example_keeper
     [(''id1'', ''/tmp/in/a.html'', []), (''id2'', ''/tmp/in/b.css'', []),
      (''id3'', ''/tmp/in/c.html'', [])]) = Inr [1, 2, 3] \<and>
   GetHighestReadingOrder (snd (add_files example_types (\<lambda>path. True) example_keeper
     [(''id1'', ''/tmp/in/a.html'', []), (''id2'', ''/tmp/in/b.css'', []),
      (''id3'', ''/tmp/in/c.html'', [])])) = 1"
proof -
  let ?files = "[(''id1'', ''/tmp/in/a.html'', []), (''id2'', ''/tmp/in/b.css'', []),
      (''id3'', ''/tmp/in/c.html'', [])]"
  let ?run = "add_files example_types (\<lambda>path. True) example_keeper ?files"
  have types: "map (\<lambda>resource. m_Type (heap (snd ?run) ! resource)) [1, 2, 3]
      = [HTMLResourceType, CSSResourceType, HTMLResourceType]"
    and res: "fst ?run = Inr [1, 2, 3]"
    by (simp_all add: example_eval keeper_eval allocator_eval)
  have run: "add_files example_types (\<lambda>path. True) (FolderKeeper_new ''/tmp/bk'' ''2.0'' ''opf'')
      ?files = (Inr [1, 2, 3], snd ?run)"
    using res by (simp add: example_keeper_def prod_eq_iff)
  have d: "distinct (map fst ?files)" "''opf'' \<notin> set (map fst ?files)"
    by simp_all
  from types have count:
    "length (filter (\<lambda>resource. m_Type (heap (snd ?run) ! resource) = HTMLResourceType) [1, 2, 3]) = 2"
    by simp
  from GetHighestReadingOrder_count[where temp_folder = "''/tmp/bk''" and version = "''2.0''"
      and opf_uuid = "''opf''" and MTMaps = example_types and exists = "\<lambda>path. True"
      and files = ?files and resources = "[1, 2, 3]" and s' = "snd ?run"] run d
  have "GetHighestReadingOrder (snd ?run) =
      int (length (filter (\<lambda>resource. m_Type (heap (snd ?run) ! resource) = HTMLResourceType)
        [1, 2, 3])) - 1"
    by blast
  with count res show ?thesis by simp
qed


section \<open>The two indices hold the same resources\<close>

lemma I1_new: "I1 (FolderKeeper_new temp_folder version uuid)"
  by (simp add: I1_def FolderKeeper_new_def CreateInfrastructureFiles_def
      CreateFolderStructure_def CreateKeyToLCPMap_def QHash_subscript_def new_Resource_def
      GetIdentifier_def Let_def)

lemma map_of_key: "map_of al k = Some v \<Longrightarrow> k \<in> set (map fst al)"
  by (metis map_of_eq_None_iff option.distinct(1) set_map)

lemma I1_insert:
  assumes inv: "I1 s"
    and fresh_id: "uuid \<notin> set (map fst (m_Resources s))"
    and fresh_path: "GetRelativePath object \<notin> set (map fst (m_Path2Resource s))"
    and obj: "GetIdentifier object = uuid" "m_MainFolder object = m_FullPathToMainFolder s"
    and heap': "heap s' = heap s @ [object]"
    and ids': "m_Resources s' = AList.update uuid (length (heap s)) (m_Resources s)"
    and paths': "m_Path2Resource s' =
        AList.update (GetRelativePath object) (Some (length (heap s))) (m_Path2Resource s)"
    and main': "m_FullPathToMainFolder s' = m_FullPathToMainFolder s"
  shows "I1 s'"
proof -
  let ?n = "length (heap s)"
  let ?bp = "GetRelativePath object"
  have ids: "m_Resources s' = m_Resources s @ [(uuid, ?n)]"
    using fresh_id by (simp add: ids' update_fresh)
  have paths: "m_Path2Resource s' = m_Path2Resource s @ [(?bp, Some ?n)]"
    using fresh_path by (simp add: paths' update_fresh)
  have d1: "distinct (map fst (m_Resources s'))"
    using inv fresh_id by (simp add: ids I1_def)
  have d2: "distinct (map fst (m_Path2Resource s'))"
    using inv fresh_path by (simp add: paths I1_def)
  have old_id: "resource < length (heap s') \<and>
        GetIdentifier (heap s' ! resource) = ident \<and>
        m_MainFolder (heap s' ! resource) = m_FullPathToMainFolder s' \<and>
        map_of (m_Path2Resource s') (GetRelativePath (heap s' ! resource)) = Some (Some resource)"
    if "(ident, resource) \<in> set (m_Resources s)" for ident resource
  proof -
    from inv that have r: "resource < length (heap s)"
      "GetIdentifier (heap s ! resource) = ident"
      "m_MainFolder (heap s ! resource) = m_FullPathToMainFolder s"
      "map_of (m_Path2Resource s) (GetRelativePath (heap s ! resource)) = Some (Some resource)"
      by (auto simp: I1_def)
    from r(4) have "GetRelativePath (heap s ! resource) \<noteq> ?bp"
      using fresh_path map_of_key by metis
    with r show ?thesis
      by (simp add: heap' nth_append main' paths' map_of_update_if)
  qed
  have new_id: "?n < length (heap s') \<and>
        GetIdentifier (heap s' ! ?n) = uuid \<and>
        m_MainFolder (heap s' ! ?n) = m_FullPathToMainFolder s' \<and>
        map_of (m_Path2Resource s') (GetRelativePath (heap s' ! ?n)) = Some (Some ?n)"
    using obj by (simp add: heap' main' paths' map_of_update_if)
  have old_path: "case res of
          None \<Rightarrow> False
        | Some resource \<Rightarrow>
            resource < length (heap s') \<and>
            GetRelativePath (heap s' ! resource) = bookpath \<and>
            map_of (m_Resources s') (GetIdentifier (heap s' ! resource)) = Some resource"
    if "(bookpath, res) \<in> set (m_Path2Resource s)" for bookpath res
  proof -
    from inv that obtain resource where res: "res = Some resource"
      and r: "resource < length (heap s)" "GetRelativePath (heap s ! resource) = bookpath"
        "map_of (m_Resources s) (GetIdentifier (heap s ! resource)) = Some resource"
      by (auto simp: I1_def split: option.splits)
    from r(3) have "GetIdentifier (heap s ! resource) \<noteq> uuid"
      using fresh_id map_of_key by metis
    with r show ?thesis
      by (simp add: res heap' nth_append ids' map_of_update_if)
  qed
  have new_path: "?n < length (heap s') \<and>
            GetRelativePath (heap s' ! ?n) = ?bp \<and>
            map_of (m_Resources s') (GetIdentifier (heap s' ! ?n)) = Some ?n"
    using obj by (simp add: heap' ids' map_of_update_if)
  have A: "\<forall>(ident, resource) \<in> set (m_Resources s').
        resource < length (heap s') \<and>
        GetIdentifier (heap s' ! resource) = ident \<and>
        m_MainFolder (heap s' ! resource) = m_FullPathToMainFolder s' \<and>
        map_of (m_Path2Resource s') (GetRelativePath (heap s' ! resource)) = Some (Some resource)"
  proof
    fix x
    assume "x \<in> set (m_Resources s')"
    then consider "x \<in> set (m_Resources s)" | "x = (uuid, ?n)"
      by (auto simp: ids)
    then show "case x of (ident, resource) \<Rightarrow>
        resource < length (heap s') \<and>
        GetIdentifier (heap s' ! resource) = ident \<and>
        m_MainFolder (heap s' ! resource) = m_FullPathToMainFolder s' \<and>
        map_of (m_Path2Resource s') (GetRelativePath (heap s' ! resource)) = Some (Some resource)"
    proof cases
      case 1
      then show ?thesis using old_id[of "fst x" "snd x"] by (simp add: case_prod_beta)
    next
      case 2
      then show ?thesis using new_id by simp
    qed
  qed
  have B: "\<forall>(bookpath, res) \<in> set (m_Path2Resource s').
        case res of
          None \<Rightarrow> False
        | Some resource \<Rightarrow>
            resource < length (heap s') \<and>
            GetRelativePath (heap s' ! resource) = bookpath \<and>
            map_of (m_Resources s') (GetIdentifier (heap s' ! resource)) = Some resource"
  proof
    fix x
    assume "x \<in> set (m_Path2Resource s')"
    then consider "x \<in> set (m_Path2Resource s)" | "x = (?bp, Some ?n)"
      by (auto simp: paths)
    then show "case x of (bookpath, res) \<Rightarrow>
        case res of
          None \<Rightarrow> False
        | Some resource \<Rightarrow>
            resource < length (heap s') \<and>
            GetRelativePath (heap s' ! resource) = bookpath \<and>
            map_of (m_Resources s') (GetIdentifier (heap s' ! resource)) = Some resource"
    proof cases
      case 1
      then show ?thesis using old_path[of "fst x" "snd x"] by (simp add: case_prod_beta)
    next
      case 2
      then show ?thesis using new_path by simp
    qed
  qed
  from d1 d2 A B show ?thesis
    unfolding I1_def by blast
qed

lemma registered_entries:
  assumes "I1 s" and "registered s r"
  shows "(GetIdentifier (heap s ! r), r) \<in> set (m_Resources s)"
    and "map_of (m_Path2Resource s) (GetRelativePath (heap s ! r)) = Some (Some r)"
    and "m_MainFolder (heap s ! r) = m_FullPathToMainFolder s"
    and "r < length (heap s)"
proof -
  from assms(2) have m: "map_of (m_Resources s) (GetIdentifier (heap s ! r)) = Some r"
    and v: "r < length (heap s)"
    by (simp_all add: registered_def)
  from m show e: "(GetIdentifier (heap s ! r), r) \<in> set (m_Resources s)"
    by (rule map_of_SomeD)
  from assms(1) e show "map_of (m_Path2Resource s) (GetRelativePath (heap s ! r)) = Some (Some r)"
    and "m_MainFolder (heap s ! r) = m_FullPathToMainFolder s"
    by (auto simp: I1_def)
  from v show "r < length (heap s)" .
qed

lemma I1_id_entry:
  assumes "I1 s" and "(ident, t) \<in> set (m_Resources s)"
  shows "t < length (heap s)" and "GetIdentifier (heap s ! t) = ident"
    and "m_MainFolder (heap s ! t) = m_FullPathToMainFolder s"
    and "map_of (m_Path2Resource s) (GetRelativePath (heap s ! t)) = Some (Some t)"
  using assms by (auto simp: I1_def)

lemma I1_path_entry:
  assumes "I1 s" and "(bookpath, res) \<in> set (m_Path2Resource s)"
  shows "\<exists>t. res = Some t \<and> t < length (heap s) \<and> GetRelativePath (heap s ! t) = bookpath \<and>
    map_of (m_Resources s) (GetIdentifier (heap s ! t)) = Some t"
  using assms by (auto simp: I1_def split: option.splits)

lemma I1_RemoveResource:
  assumes inv: "I1 s" and reg: "registered s r"
  shows "I1 (RemoveResource s r)"
proof -
  let ?id = "GetIdentifier (heap s ! r)"
  let ?bp = "GetRelativePath (heap s ! r)"
  let ?s' = "RemoveResource s r"
  note R = registered_entries[OF inv reg]
  have idm: "map_of (m_Resources s) ?id = Some r"
    using reg by (simp add: registered_def)
  have heap': "heap ?s' = heap s" and main': "m_FullPathToMainFolder ?s' = m_FullPathToMainFolder s"
    and ids': "m_Resources ?s' = AList.delete ?id (m_Resources s)"
    and paths': "m_Path2Resource ?s' = AList.delete ?bp (m_Path2Resource s)"
    by (simp_all add: RemoveResource_def Let_def)
  have d1: "distinct (map fst (m_Resources ?s'))"
    using inv by (simp add: ids' I1_def distinct_delete)
  have d2: "distinct (map fst (m_Path2Resource ?s'))"
    using inv by (simp add: paths' I1_def distinct_delete)
  have A: "\<forall>(ident, resource) \<in> set (m_Resources ?s').
        resource < length (heap ?s') \<and>
        GetIdentifier (heap ?s' ! resource) = ident \<and>
        m_MainFolder (heap ?s' ! resource) = m_FullPathToMainFolder ?s' \<and>
        map_of (m_Path2Resource ?s') (GetRelativePath (heap ?s' ! resource)) = Some (Some resource)"
  proof
    fix x
    assume "x \<in> set (m_Resources ?s')"
    then obtain ident t where x: "x = (ident, t)" and mem: "(ident, t) \<in> set (m_Resources s)"
      and ne: "ident \<noteq> ?id"
      by (auto simp: ids' delete_values)
    note E = I1_id_entry[OF inv mem]
    have "GetRelativePath (heap s ! t) \<noteq> ?bp"
    proof
      assume "GetRelativePath (heap s ! t) = ?bp"
      with E(4) R(2) have "t = r" by (metis option.inject)
      with E(2) ne show False by simp
    qed
    with E show "case x of (ident, resource) \<Rightarrow>
        resource < length (heap ?s') \<and>
        GetIdentifier (heap ?s' ! resource) = ident \<and>
        m_MainFolder (heap ?s' ! resource) = m_FullPathToMainFolder ?s' \<and>
        map_of (m_Path2Resource ?s') (GetRelativePath (heap ?s' ! resource)) = Some (Some resource)"
      unfolding x prod.case heap' main' paths' map_of_delete_if by simp
  qed
  have B: "\<forall>(bookpath, res) \<in> set (m_Path2Resource ?s').
        case res of
          None \<Rightarrow> False
        | Some resource \<Rightarrow>
            resource < length (heap ?s') \<and>
            GetRelativePath (heap ?s' ! resource) = bookpath \<and>
            map_of (m_Resources ?s') (GetIdentifier (heap ?s' ! resource)) = Some resource"
  proof
    fix x
    assume "x \<in> set (m_Path2Resource ?s')"
    then obtain bookpath res where x: "x = (bookpath, res)"
      and mem: "(bookpath, res) \<in> set (m_Path2Resource s)" and ne: "bookpath \<noteq> ?bp"
      by (auto simp: paths' delete_values)
    from I1_path_entry[OF inv mem] obtain t where res: "res = Some t"
      and E: "t < length (heap s)" "GetRelativePath (heap s ! t) = bookpath"
        "map_of (m_Resources s) (GetIdentifier (heap s ! t)) = Some t"
      by blast
    have "GetIdentifier (heap s ! t) \<noteq> ?id"
    proof
      assume "GetIdentifier (heap s ! t) = ?id"
      with E(3) idm have "t = r" by (metis option.inject)
      with E(2) ne show False by simp
    qed
    with E show "case x of (bookpath, res) \<Rightarrow>
        case res of
          None \<Rightarrow> False
        | Some resource \<Rightarrow>
            resource < length (heap ?s') \<and>
            GetRelativePath (heap ?s' ! resource) = bookpath \<and>
            map_of (m_Resources ?s') (GetIdentifier (heap ?s' ! resource)) = Some resource"
      unfolding x res prod.case option.case heap' ids' map_of_delete_if by simp
  qed
  from d1 d2 A B show ?thesis
    unfolding I1_def by blast
qed

lemma update_delete_values:
  "k \<notin> set (map fst al) \<Longrightarrow>
   set (AList.update k v (AList.delete k' al)) = insert (k, v) {(j, w) \<in> set al. j \<noteq> k'}"
proof -
  assume "k \<notin> set (map fst al)"
  then have "k \<notin> set (map fst (AList.delete k' al))"
    by (auto simp: delete_values)
  then show ?thesis
    by (simp add: update_fresh delete_values)
qed

lemma I1_rename_resource:
  assumes inv: "I1 s" and reg: "registered s r"
    and fresh: "GetRelativePath ((heap s ! r)\<lparr>m_FullFilePath := new_full_path\<rparr>)
      \<notin> set (map fst (m_Path2Resource s))"
  shows "I1 (rename_resource s r new_full_path)"
proof -
  let ?obj = "heap s ! r"
  let ?obj' = "?obj\<lparr>m_FullFilePath := new_full_path\<rparr>"
  let ?id = "GetIdentifier ?obj"
  let ?bp = "GetRelativePath ?obj"
  let ?new = "GetRelativePath ?obj'"
  let ?s' = "rename_resource s r new_full_path"
  note R = registered_entries[OF inv reg]
  have idm: "map_of (m_Resources s) ?id = Some r"
    using reg by (simp add: registered_def)
  have book_path: "QString_right (GetFullPath ?obj)
      (int (length (GetFullPath ?obj)) - int (length (m_FullPathToMainFolder s)) - 1) = ?bp"
    using R(3) by (simp add: GetRelativePath_def GetFullPath_def)
  have heap': "heap ?s' = (heap s)[r := ?obj']"
    and main': "m_FullPathToMainFolder ?s' = m_FullPathToMainFolder s"
    and ids': "m_Resources ?s' = m_Resources s"
    by (simp_all add: rename_resource_def ResourceRenamed_def Let_def split: prod.splits)
  have paths': "m_Path2Resource ?s' = AList.update ?new (Some r) (AList.delete ?bp (m_Path2Resource s))"
    using R(2,4) book_path
    by (simp add: rename_resource_def ResourceRenamed_def Let_def QHash_subscript_def)
  have at_r: "heap ?s' ! r = ?obj'"
    using R(4) by (simp add: heap')
  have other: "heap ?s' ! t = heap s ! t" if "t \<noteq> r" for t
    using that by (simp add: heap')
  have len: "length (heap ?s') = length (heap s)"
    by (simp add: heap')
  have d1: "distinct (map fst (m_Resources ?s'))"
    using inv by (simp add: ids' I1_def)
  have d2: "distinct (map fst (m_Path2Resource ?s'))"
    using inv by (simp add: paths' I1_def distinct_update distinct_delete)
  have entries: "set (m_Path2Resource ?s') =
      insert (?new, Some r) {(j, w) \<in> set (m_Path2Resource s). j \<noteq> ?bp}"
    using fresh by (simp add: paths' update_delete_values)
  have A: "\<forall>(ident, resource) \<in> set (m_Resources ?s').
        resource < length (heap ?s') \<and>
        GetIdentifier (heap ?s' ! resource) = ident \<and>
        m_MainFolder (heap ?s' ! resource) = m_FullPathToMainFolder ?s' \<and>
        map_of (m_Path2Resource ?s') (GetRelativePath (heap ?s' ! resource)) = Some (Some resource)"
  proof
    fix x
    assume xin: "x \<in> set (m_Resources ?s')"
    obtain ident t where x: "x = (ident, t)"
      by (cases x)
    from xin have mem: "(ident, t) \<in> set (m_Resources s)"
      by (simp add: x ids')
    note E = I1_id_entry[OF inv mem]
    have "t < length (heap ?s') \<and>
        GetIdentifier (heap ?s' ! t) = ident \<and>
        m_MainFolder (heap ?s' ! t) = m_FullPathToMainFolder ?s' \<and>
        map_of (m_Path2Resource ?s') (GetRelativePath (heap ?s' ! t)) = Some (Some t)"
    proof (cases "t = r")
      case True
      have "GetIdentifier ?obj' = ident"
        using E(2) True by (simp add: GetIdentifier_def)
      moreover have "m_MainFolder ?obj' = m_FullPathToMainFolder s"
        using R(3) by simp
      moreover have "map_of (m_Path2Resource ?s') ?new = Some (Some r)"
        by (simp add: paths' map_of_update_if)
      ultimately show ?thesis
        using True R(4) by (simp add: at_r len main')
    next
      case False
      have n1: "GetRelativePath (heap s ! t) \<noteq> ?new"
        using E(4) fresh map_of_key by metis
      have n2: "GetRelativePath (heap s ! t) \<noteq> ?bp"
      proof
        assume "GetRelativePath (heap s ! t) = ?bp"
        with E(4) R(2) have "t = r" by (metis option.inject)
        with False show False by simp
      qed
      have "map_of (m_Path2Resource ?s') (GetRelativePath (heap s ! t)) = Some (Some t)"
        using n1 n2 E(4) by (simp add: paths' map_of_update_if map_of_delete_if)
      then show ?thesis
        using E(1,2,3) by (simp add: other[OF False] len main')
    qed
    then show "case x of (ident, resource) \<Rightarrow>
        resource < length (heap ?s') \<and>
        GetIdentifier (heap ?s' ! resource) = ident \<and>
        m_MainFolder (heap ?s' ! resource) = m_FullPathToMainFolder ?s' \<and>
        map_of (m_Path2Resource ?s') (GetRelativePath (heap ?s' ! resource)) = Some (Some resource)"
      unfolding x prod.case .
  qed
  have B: "\<forall>(bookpath, res) \<in> set (m_Path2Resource ?s').
        case res of
          None \<Rightarrow> False
        | Some resource \<Rightarrow>
            resource < length (heap ?s') \<and>
            GetRelativePath (heap ?s' ! resource) = bookpath \<and>
            map_of (m_Resources ?s') (GetIdentifier (heap ?s' ! resource)) = Some resource"
  proof
    fix x
    assume "x \<in> set (m_Path2Resource ?s')"
    then consider "x = (?new, Some r)"
      | bookpath res where "x = (bookpath, res)" "(bookpath, res) \<in> set (m_Path2Resource s)"
          "bookpath \<noteq> ?bp"
      unfolding entries by blast
    then show "case x of (bookpath, res) \<Rightarrow>
        case res of
          None \<Rightarrow> False
        | Some resource \<Rightarrow>
            resource < length (heap ?s') \<and>
            GetRelativePath (heap ?s' ! resource) = bookpath \<and>
            map_of (m_Resources ?s') (GetIdentifier (heap ?s' ! resource)) = Some resource"
    proof cases
      case 1
      have "GetIdentifier ?obj' = ?id" by (simp add: GetIdentifier_def)
      then show ?thesis
        using R(4) idm by (simp add: 1 at_r len ids')
    next
      case (2 bookpath res)
      from I1_path_entry[OF inv 2(2)] obtain t where res: "res = Some t"
        and E: "t < length (heap s)" "GetRelativePath (heap s ! t) = bookpath"
          "map_of (m_Resources s) (GetIdentifier (heap s ! t)) = Some t"
        by blast
      have "t \<noteq> r" using E(2) 2(3) by auto
      then show ?thesis
        using E by (simp add: 2(1) res other len ids')
    qed
  qed
  from d1 d2 A B show ?thesis
    unfolding I1_def by blast
qed

lemma I1_AddContentFileToFolder:
  assumes inv: "I1 s"
    and r: "AddContentFileToFolder MTMaps exists uuid s fullfilepath update_opf mimetype
      = (Inr resource, s')"
    and fresh_id: "uuid \<notin> set (map fst (m_Resources s))"
    and fresh_path: "GetRelativePath (heap s' ! resource) \<notin> set (map fst (m_Path2Resource s))"
  shows "I1 s'"
proof -
  from r have ex: "exists fullfilepath"
    by (auto simp: AddContentFileToFolder_def split: if_splits)
  from r ex obtain opf where opf: "m_OPF s = Some opf"
    by (cases "m_OPF s") (auto simp: AddContentFileToFolder_def Let_def split: prod.splits)
  obtain new_file_path type mt lcppath where
    c: "classify_and_place MTMaps s fullfilepath mimetype = (new_file_path, type, mt, lcppath)"
    by (cases "classify_and_place MTMaps s fullfilepath mimetype") auto
  note R = AddContentFileToFolder_success[where exists = exists and fullfilepath = fullfilepath
      and uuid = uuid and update_opf = update_opf, OF ex opf c]
  let ?object = "\<lparr>m_Identifier = uuid, m_MainFolder = m_FullPathToMainFolder s,
      m_FullFilePath = new_file_path, m_Type = type,
      m_EpubVersion = m_EpubVersion (heap s ! opf), m_MediaType = mt, m_LCP = lcppath\<rparr>"
  from r R have res: "resource = length (heap s)"
    and heap': "heap s' = heap s @ [?object]"
    and ids': "m_Resources s' = AList.update uuid (length (heap s)) (m_Resources s)"
    and paths': "m_Path2Resource s' =
        AList.update (GetRelativePath ?object) (Some (length (heap s))) (m_Path2Resource s)"
    and main': "m_FullPathToMainFolder s' = m_FullPathToMainFolder s"
    by (auto simp: GetRelativePath_def)
  have fresh: "GetRelativePath ?object \<notin> set (map fst (m_Path2Resource s))"
    using fresh_path by (simp add: res heap')
  show ?thesis
    by (rule I1_insert[OF inv fresh_id fresh _ _ heap' ids' paths' main'])
      (simp_all add: GetIdentifier_def)
qed

lemma I1_AddNCXToFolder:
  assumes inv: "I1 s"
    and r: "AddNCXToFolder uuid s version = (Inr resource, s')"
    and fresh_id: "uuid \<notin> set (map fst (m_Resources s))"
    and fresh_path: "GetRelativePath (heap s' ! resource) \<notin> set (map fst (m_Path2Resource s))"
  shows "I1 s'"
proof -
  from r obtain opf where opf: "m_OPF s = Some opf"
    by (cases "m_OPF s") (auto simp: AddNCXToFolder_def)
  obtain lcp key_to_lcp where q: "QHash_subscript (m_KeyToLCP s) ''ncx'' [] = (lcp, key_to_lcp)"
    by (cases "QHash_subscript (m_KeyToLCP s) ''ncx'' []") auto
  let ?object = "(new_Resource NCXResourceType uuid (m_FullPathToMainFolder s)
      (m_FullPathToOEBPSFolder s @ ''/'' @ NCX_FILE_NAME))\<lparr>m_EpubVersion := version, m_LCP := lcp\<rparr>"
  from r opf q have res: "resource = length (heap s)"
    and heap': "heap s' = heap s @ [?object]"
    and ids': "m_Resources s' = AList.update uuid (length (heap s)) (m_Resources s)"
    and paths': "m_Path2Resource s' =
        AList.update (GetRelativePath ?object) (Some (length (heap s))) (m_Path2Resource s)"
    and main': "m_FullPathToMainFolder s' = m_FullPathToMainFolder s"
    by (auto simp: AddNCXToFolder_def Let_def GetIdentifier_def new_Resource_def)
  have fresh: "GetRelativePath ?object \<notin> set (map fst (m_Path2Resource s))"
    using fresh_path by (simp add: res heap')
  show ?thesis
    by (rule I1_insert[OF inv fresh_id fresh _ _ heap' ids' paths' main'])
      (simp_all add: GetIdentifier_def new_Resource_def)
qed

lemma new_entry_allowedD:
  assumes "new_entry_allowed s uuid result = Some s'"
  shows "\<exists>resource. result = (Inr resource, s') \<and>
      uuid \<notin> set (map fst (m_Resources s)) \<and>
      GetRelativePath (heap s' ! resource) \<notin> set (map fst (m_Path2Resource s))"
proof -
  obtain outcome s1 where result: "result = (outcome, s1)"
    by (cases result)
  show ?thesis
  proof (cases outcome)
    case (Inl e)
    with assms result show ?thesis
      by (simp add: new_entry_allowed_def)
  next
    case (Inr resource)
    with assms result show ?thesis
      by (simp add: new_entry_allowed_def split: if_splits)
  qed
qed

lemma I1_step:
  assumes inv: "I1 s" and st: "step MTMaps exists s operation = Some s'"
  shows "I1 s'"
proof (cases operation)
  case (AddContentFile uuid fullfilepath update_opf mimetype)
  with st have "new_entry_allowed s uuid
      (AddContentFileToFolder MTMaps exists uuid s fullfilepath update_opf mimetype) = Some s'"
    by simp
  from new_entry_allowedD[OF this] obtain resource where
    "AddContentFileToFolder MTMaps exists uuid s fullfilepath update_opf mimetype
       = (Inr resource, s')"
    "uuid \<notin> set (map fst (m_Resources s))"
    "GetRelativePath (heap s' ! resource) \<notin> set (map fst (m_Path2Resource s))"
    by blast
  then show ?thesis
    by (rule I1_AddContentFileToFolder[OF inv])
next
  case (AddNavigationResource uuid version)
  with st have "new_entry_allowed s uuid (AddNCXToFolder uuid s version) = Some s'"
    by simp
  from new_entry_allowedD[OF this] obtain resource where
    "AddNCXToFolder uuid s version = (Inr resource, s')"
    "uuid \<notin> set (map fst (m_Resources s))"
    "GetRelativePath (heap s' ! resource) \<notin> set (map fst (m_Path2Resource s))"
    by blast
  then show ?thesis
    by (rule I1_AddNCXToFolder[OF inv])
next
  case (Remove resource)
  with st have "registered s resource" and "s' = RemoveResource s resource"
    by (simp_all split: if_splits)
  with inv show ?thesis
    by (simp add: I1_RemoveResource)
next
  case (Rename resource new_full_path)
  with st have "registered s resource"
    and "GetRelativePath ((heap s ! resource)\<lparr>m_FullFilePath := new_full_path\<rparr>)
           \<notin> set (map fst (m_Path2Resource s))"
    and "s' = rename_resource s resource new_full_path"
    by (simp_all split: if_splits)
  with inv show ?thesis
    by (simp add: I1_rename_resource)
qed

lemma I1_run:
  "I1 s \<Longrightarrow> run MTMaps exists s operations = Some s' \<Longrightarrow> I1 s'"
proof (induction operations arbitrary: s)
  case Nil
  then show ?case by simp
next
  case (Cons operation operations)
  from Cons.prems(2) obtain s1 where first: "step MTMaps exists s operation = Some s1"
    and rest: "run MTMaps exists s1 operations = Some s'"
    by (auto split: option.splits)
  from I1_step[OF Cons.prems(1) first] rest show ?case
    by (rule Cons.IH)
qed

text \<open>What the invariant says of the two lookups.\<close>

lemma I1_lookups:
  assumes "I1 s"
  shows "GetResourceByIdentifier s ident = Some r \<Longrightarrow>
      GetIdentifier (heap s ! r) = ident \<and>
      GetResourceByBookPath s (GetRelativePath (heap s ! r)) = Inr r \<and>
      filter (\<lambda>(bookpath, res). res = Some r) (m_Path2Resource s)
        = [(GetRelativePath (heap s ! r), Some r)]"
    and "GetResourceByBookPath s bookpath = Inr r \<Longrightarrow>
      GetRelativePath (heap s ! r) = bookpath \<and>
      GetResourceByIdentifier s (GetIdentifier (heap s ! r)) = Some r \<and>
      filter (\<lambda>(ident, resource). resource = r) (m_Resources s)
        = [(GetIdentifier (heap s ! r), r)]"
proof -
  have d1: "distinct (map fst (m_Resources s))" and d2: "distinct (map fst (m_Path2Resource s))"
    using assms by (simp_all add: I1_def)
  {
    assume "GetResourceByIdentifier s ident = Some r"
    then have mem: "(ident, r) \<in> set (m_Resources s)"
      by (auto simp: GetResourceByIdentifier_def dest: map_of_SomeD)
    note E = I1_id_entry[OF assms mem]
    have "set (filter (\<lambda>(bookpath, res). res = Some r) (m_Path2Resource s))
        = {(GetRelativePath (heap s ! r), Some r)}"
    proof (intro equalityI subsetI)
      fix x
      assume "x \<in> set (filter (\<lambda>(bookpath, res). res = Some r) (m_Path2Resource s))"
      then obtain p where x: "x = (p, Some r)" and "(p, Some r) \<in> set (m_Path2Resource s)"
        by auto
      from I1_path_entry[OF assms this(2)] have "GetRelativePath (heap s ! r) = p" by auto
      with x show "x \<in> {(GetRelativePath (heap s ! r), Some r)}" by simp
    next
      fix x
      assume "x \<in> {(GetRelativePath (heap s ! r), Some r)}"
      with E(4) show "x \<in> set (filter (\<lambda>(bookpath, res). res = Some r) (m_Path2Resource s))"
        by (auto dest: map_of_SomeD)
    qed
    then have "filter (\<lambda>(bookpath, res). res = Some r) (m_Path2Resource s)
        = [(GetRelativePath (heap s ! r), Some r)]"
      using distinct_keys_filter[OF d2] by (intro distinct_singleton) auto
    with E show "GetIdentifier (heap s ! r) = ident \<and>
      GetResourceByBookPath s (GetRelativePath (heap s ! r)) = Inr r \<and>
      filter (\<lambda>(bookpath, res). res = Some r) (m_Path2Resource s)
        = [(GetRelativePath (heap s ! r), Some r)]"
      by (simp add: GetResourceByBookPath_Inr)
  }
  {
    assume "GetResourceByBookPath s bookpath = Inr r"
    then have mem: "(bookpath, Some r) \<in> set (m_Path2Resource s)"
      by (auto simp: GetResourceByBookPath_Inr dest: map_of_SomeD)
    from I1_path_entry[OF assms mem] have E: "GetRelativePath (heap s ! r) = bookpath"
      "map_of (m_Resources s) (GetIdentifier (heap s ! r)) = Some r"
      by auto
    have "set (filter (\<lambda>(ident, resource). resource = r) (m_Resources s))
        = {(GetIdentifier (heap s ! r), r)}"
    proof (intro equalityI subsetI)
      fix x
      assume "x \<in> set (filter (\<lambda>(ident, resource). resource = r) (m_Resources s))"
      then obtain i where x: "x = (i, r)" and "(i, r) \<in> set (m_Resources s)"
        by auto
      from I1_id_entry(2)[OF assms this(2)] x
      show "x \<in> {(GetIdentifier (heap s ! r), r)}" by simp
    next
      fix x
      assume "x \<in> {(GetIdentifier (heap s ! r), r)}"
      with E(2) show "x \<in> set (filter (\<lambda>(ident, resource). resource = r) (m_Resources s))"
        by (auto dest: map_of_SomeD)
    qed
    then have "filter (\<lambda>(ident, resource). resource = r) (m_Resources s)
        = [(GetIdentifier (heap s ! r), r)]"
      using distinct_keys_filter[OF d1] by (intro distinct_singleton) auto
    with E show "GetRelativePath (heap s ! r) = bookpath \<and>
      GetResourceByIdentifier s (GetIdentifier (heap s ! r)) = Some r \<and>
      filter (\<lambda>(ident, resource). resource = r) (m_Resources s)
        = [(GetIdentifier (heap s ! r), r)]"
      by (simp add: GetResourceByIdentifier_def)
  }
qed

text \<open>
  Claim C1, as the specification states it: after every sequence of registry operations
  each resource of \<open>m_Resources\<close> has its entry in \<open>m_Path2Resource\<close>. In \<open>example_twice\<close>
  the file \<open>/tmp/in/META-INF/x.xml\<close> has been added twice to a new keeper, and both
  additions have returned a resource. A file of \<open>META-INF\<close> keeps its place (line 165), so
  both resources have the book path \<open>META-INF/x.xml\<close>: the second addition has taken over
  the entry of the first, which is still in \<open>m_Resources\<close> and has no entry in
  \<open>m_Path2Resource\<close>.
\<close>

theorem I1_counterexample:
  "fst (AddContentFileToFolder example_types (\<lambda>path. True) ''id1'' example_keeper
          ''/tmp/in/META-INF/x.xml'' True []) = Inr 1 \<and>
   fst (AddContentFileToFolder example_types (\<lambda>path. True) ''id2''
          (snd (AddContentFileToFolder example_types (\<lambda>path. True) ''id1'' example_keeper
                  ''/tmp/in/META-INF/x.xml'' True []))
          ''/tmp/in/META-INF/x.xml'' True []) = Inr 2 \<and>
   GetResourceByIdentifier example_twice ''id1'' = Some 1 \<and>
   GetRelativePath (heap example_twice ! 1) = ''META-INF/x.xml'' \<and>
   GetResourceByBookPath example_twice ''META-INF/x.xml'' = Inr 2 \<and>
   filter (\<lambda>(bookpath, res). res = Some 1) (m_Path2Resource example_twice) = [] \<and>
   \<not> I1 example_twice"
proof -
  have "fst (AddContentFileToFolder example_types (\<lambda>path. True) ''id1'' example_keeper
          ''/tmp/in/META-INF/x.xml'' True []) = Inr 1"
    by (simp add: example_keeper_eq keeper_eval allocator_eval)
  moreover have "fst (AddContentFileToFolder example_types (\<lambda>path. True) ''id2''
          (snd (AddContentFileToFolder example_types (\<lambda>path. True) ''id1'' example_keeper
                  ''/tmp/in/META-INF/x.xml'' True []))
          ''/tmp/in/META-INF/x.xml'' True []) = Inr 2"
    by (simp add: example_keeper_eq keeper_eval allocator_eval)
  moreover have "GetResourceByIdentifier example_twice ''id1'' = Some 1"
    "GetRelativePath (heap example_twice ! 1) = ''META-INF/x.xml''"
    "GetResourceByBookPath example_twice ''META-INF/x.xml'' = Inr 2"
    "filter (\<lambda>(bookpath, res). res = Some 1) (m_Path2Resource example_twice) = []"
    "\<not> I1 example_twice"
    by (simp_all add: example_twice_eq example_keeper_eq GetResourceByIdentifier_def
        GetResourceByBookPath_def I1_def keeper_eval string_eval)
  ultimately show ?thesis by blast
qed

text \<open>
  Claim C1, amended. The two indices agree (\<open>I1\<close>) in a new keeper, and they agree after
  every run of additions of content files, additions of the navigation resource, removals
  and renames in which every addition draws an identifier and arrives at a book path that
  are not registered yet, every removal names a registered resource, and every rename
  moves a registered resource to a book path that is not registered yet. Then a resource
  that the lookup by identifier returns has that identifier and is returned by the lookup
  by its book path, under which \<open>m_Path2Resource\<close> has its only entry for the resource, and
  the same with the two indices exchanged.
\<close>

theorem I1_run_invariant:
  "I1 (FolderKeeper_new temp_folder version opf_uuid) \<and>
   (I1 s \<and> run MTMaps exists s operations = Some s' \<longrightarrow>
      I1 s' \<and>
      (\<forall>ident r. GetResourceByIdentifier s' ident = Some r \<longrightarrow>
         GetIdentifier (heap s' ! r) = ident \<and>
         GetResourceByBookPath s' (GetRelativePath (heap s' ! r)) = Inr r \<and>
         filter (\<lambda>(bookpath, res). res = Some r) (m_Path2Resource s')
           = [(GetRelativePath (heap s' ! r), Some r)]) \<and>
      (\<forall>bookpath r. GetResourceByBookPath s' bookpath = Inr r \<longrightarrow>
         GetRelativePath (heap s' ! r) = bookpath \<and>
         GetResourceByIdentifier s' (GetIdentifier (heap s' ! r)) = Some r \<and>
         filter (\<lambda>(ident, resource). resource = r) (m_Resources s')
           = [(GetIdentifier (heap s' ! r), r)]))"
proof -
  have "I1 s'" if "I1 s" "run MTMaps exists s operations = Some s'"
    using that by (rule I1_run)
  with I1_new I1_lookups show ?thesis
    by blast
qed

theorem I1_run_invariant_witness:
  "\<exists>s'. run example_types (\<lambda>path. True) example_keeper
          [AddContentFile ''id1'' ''/tmp/in/a.html'' True [],
           AddNavigationResource ''ncx'' ''2.0'',
           Rename 1 ''/tmp/bk/OEBPS/Text/b.html'',
           Remove 2] = Some s' \<and>
        m_Resources s' = [(''opf'', 0), (''id1'', 1)] \<and>
        m_Path2Resource s' = [(''OEBPS/content.opf'', Some 0), (''OEBPS/Text/b.html'', Some 1)] \<and>
        I1 s'"
proof -
  let ?ncx = "\<lparr>m_Identifier = ''ncx'', m_MainFolder = ''/tmp/bk'',
      m_FullFilePath = ''/tmp/bk/OEBPS/toc.ncx'', m_Type = NCXResourceType,
      m_EpubVersion = ''2.0'', m_MediaType = [], m_LCP = ''/tmp/bk/OEBPS/''\<rparr>"
  let ?html = "\<lparr>m_Identifier = ''id1'', m_MainFolder = ''/tmp/bk'',
      m_FullFilePath = ''/tmp/bk/OEBPS/Text/b.html'', m_Type = HTMLResourceType,
      m_EpubVersion = ''2.0'', m_MediaType = ''application/xhtml+xml'',
      m_LCP = ''/tmp/bk/OEBPS/Text/''\<rparr>"
  let ?k2 = "example_one
      \<lparr>heap := heap example_one @ [?ncx], m_NCX := Some 2,
       m_Resources := [(''opf'', 0), (''id1'', 1), (''ncx'', 2)],
       m_Path2Resource := [(''OEBPS/content.opf'', Some 0), (''OEBPS/Text/a.html'', Some 1),
         (''OEBPS/toc.ncx'', Some 2)]\<rparr>"
  let ?k3 = "?k2
      \<lparr>heap := heap example_keeper @ [?html, ?ncx],
       m_Path2Resource := [(''OEBPS/content.opf'', Some 0), (''OEBPS/toc.ncx'', Some 2),
         (''OEBPS/Text/b.html'', Some 1)]\<rparr>"
  let ?k4 = "?k3
      \<lparr>m_Resources := [(''opf'', 0), (''id1'', 1)],
       m_Path2Resource := [(''OEBPS/content.opf'', Some 0), (''OEBPS/Text/b.html'', Some 1)]\<rparr>"
  have 1: "step example_types (\<lambda>path. True) example_keeper
      (AddContentFile ''id1'' ''/tmp/in/a.html'' True []) = Some example_one"
    by (simp add: example_one_result new_entry_allowed_def)
      (simp add: example_eval keeper_eval string_eval)
  have 2: "step example_types (\<lambda>path. True) example_one
      (AddNavigationResource ''ncx'' ''2.0'') = Some ?k2"
    by (simp add: example_eval new_entry_allowed_def AddNCXToFolder_def keeper_eval string_eval)
  have 3: "step example_types (\<lambda>path. True) ?k2 (Rename 1 ''/tmp/bk/OEBPS/Text/b.html'')
      = Some ?k3"
    by (simp add: example_eval registered_def rename_resource_def ResourceRenamed_def
        keeper_eval string_eval)
  have 4: "step example_types (\<lambda>path. True) ?k3 (Remove 2) = Some ?k4"
    by (simp add: example_eval registered_def RemoveResource_def removePath_def keeper_eval
        string_eval)
  have r: "run example_types (\<lambda>path. True) example_keeper
          [AddContentFile ''id1'' ''/tmp/in/a.html'' True [],
           AddNavigationResource ''ncx'' ''2.0'',
           Rename 1 ''/tmp/bk/OEBPS/Text/b.html'',
           Remove 2] = Some ?k4"
    by (simp only: run.simps 1 2 3 4 option.case)
  have new: "I1 example_keeper"
    using I1_run_invariant[of "''/tmp/bk''" "''2.0''" "''opf''"]
    by (simp add: example_keeper_def)
  have "I1 ?k4"
    using I1_run_invariant[where s = example_keeper and MTMaps = example_types
      and exists = "\<lambda>path. True" and s' = ?k4] new r
    by blast
  with r show ?thesis
    by (intro exI[of _ ?k4]) simp
qed



section \<open>The allocated name gives a new book path\<close>

lemma fileName_no_slash: "CHR ''/'' \<notin> set (QFileInfo_fileName path)"
  by (auto simp: QFileInfo_fileName_def dest: set_takeWhileD)

lemma fileName_append:
  assumes "CHR ''/'' \<notin> set name"
  shows "QFileInfo_fileName (dir @ ''/'' @ name) = name"
proof -
  have "takeWhile (\<lambda>c. c \<noteq> CHR ''/'') (rev name @ CHR ''/'' # rev dir)
      = rev name @ takeWhile (\<lambda>c. c \<noteq> CHR ''/'') (CHR ''/'' # rev dir)"
    using assms by (intro takeWhile_append2) auto
  then show ?thesis
    by (simp add: QFileInfo_fileName_def)
qed

lemma fileName_plain:
  assumes "CHR ''/'' \<notin> set name"
  shows "QFileInfo_fileName name = name"
proof -
  have "\<forall>x\<in>set (rev name). x \<noteq> CHR ''/''"
    using assms by auto
  then have "takeWhile (\<lambda>c. c \<noteq> CHR ''/'') (rev name) = rev name"
    by (simp only: takeWhile_eq_all_conv)
  then show ?thesis
    by (simp only: QFileInfo_fileName_def rev_rev_ident)
qed

lemma fileName_under:
  "QFileInfo_fileName (dir @ ''/'' @ path) = QFileInfo_fileName path"
proof (cases "CHR ''/'' \<in> set path")
  case True
  then have "CHR ''/'' \<in> set (rev path)" by simp
  then have "takeWhile (\<lambda>c. c \<noteq> CHR ''/'') (rev path @ CHR ''/'' # rev dir)
      = takeWhile (\<lambda>c. c \<noteq> CHR ''/'') (rev path)"
    by (intro takeWhile_append1) auto
  then show ?thesis
    by (simp add: QFileInfo_fileName_def)
next
  case False
  then show ?thesis
    using fileName_append[OF False, of dir] fileName_plain[OF False] by simp
qed

lemma strip_digits_subset: "set (strip_digits s) \<subseteq> set s"
  using set_dropWhileD[of _ is_digit "rev s"] by (auto simp: strip_digits_def)

lemma remove_digits_at_end_subset: "set (remove_digits_at_end s) \<subseteq> set s"
proof (cases "s = []")
  case True
  then show ?thesis by (simp add: remove_digits_at_end_def strip_digits_def)
next
  case False
  then have s: "s = butlast s @ [last s]" by simp
  have "set (strip_digits (butlast s)) \<subseteq> set (butlast s)" by (rule strip_digits_subset)
  moreover have "set (butlast s) \<subseteq> set s" by (metis s set_append Un_upper1)
  moreover have "last s \<in> set s" using False by simp
  ultimately show ?thesis
    using strip_digits_subset[of s] by (auto simp: remove_digits_at_end_def)
qed

lemma QString_arg_no_slash: "CHR ''/'' \<notin> set (QString_arg a w)"
proof -
  have "\<not> is_digit (CHR ''/'')" by (simp add: is_digit_def)
  then have "CHR ''/'' \<notin> set (digits_of (nat \<bar>a\<bar>))"
    using digits_of_digits[of "nat \<bar>a\<bar>"] by (auto simp: list_all_iff)
  then show ?thesis
    by (simp add: QString_arg_def Let_def)
qed

lemma UniqueFilenameVersion_no_slash:
  assumes "CHR ''/'' \<notin> set filename"
  shows "CHR ''/'' \<notin> set (UniqueFilenameVersion filenames filename)"
proof -
  have name: "QFileInfo_fileName filename = filename"
    using assms by (rule fileName_plain)
  have "set (QFileInfo_baseName filename) \<subseteq> set filename"
    by (rule baseName_subset)
  then have P: "CHR ''/'' \<notin> set (remove_digits_at_end (QFileInfo_baseName filename))"
    using assms remove_digits_at_end_subset[of "QFileInfo_baseName filename"] by blast
  have "set (QFileInfo_completeSuffix filename) \<subseteq> set filename"
    unfolding QFileInfo_completeSuffix_def name
    by (meson set_drop_subset set_dropWhileD subsetI subset_trans)
  then have E: "CHR ''/'' \<notin> set (QFileInfo_completeSuffix filename)"
    using assms by blast
  show ?thesis
    using assms P E QString_arg_no_slash
    by (auto simp: UniqueFilenameVersion_def Let_def split: prod.splits)
qed

lemma place_resource_folder:
  assumes "\<not> contains fullfilepath FILE_EXCEPTIONS"
  shows "\<exists>folder \<in> set [m_FullPathToMiscFolder s, m_FullPathToAudioFolder s,
                       m_FullPathToVideoFolder s, m_FullPathToImagesFolder s,
                       m_FullPathToFontsFolder s, m_FullPathToTextFolder s,
                       m_FullPathToStylesFolder s].
     fst (place_resource s fullfilepath resdesc filename lcppath) = folder @ ''/'' @ filename"
  using assms by (simp add: place_resource_def)

lemma under_append:
  assumes "under main folder"
  shows "under main (folder @ path)"
proof -
  from assms have "folder = main @ ''/'' @ drop (length main + 1) folder"
    by (rule under_decompose)
  then have "folder @ path = (main @ ''/'') @ drop (length main + 1) folder @ path"
    by simp
  then have "take (length (main @ ''/'')) (folder @ path) = main @ ''/''"
    by (metis append_eq_conv_conj)
  then show ?thesis
    by (simp add: under_def)
qed

text \<open>
  In a keeper whose indices agree and whose resources lie under the main folder, the
  addition of a file outside \<open>META-INF\<close> arrives at a book path that is not registered yet,
  unless a numeric suffix among the registered file names is the largest \<open>int\<close>; the new
  resource lies under the main folder as well.
\<close>

lemma AddContentFileToFolder_new_book_path:
  assumes inv: "I1 s" and pl: "placed s"
    and meta: "\<not> contains fullfilepath FILE_EXCEPTIONS"
    and below: "\<forall>c\<in>set (int_captures
        (remove_digits_at_end (QFileInfo_baseName (QFileInfo_fileName (normalise_file_path fullfilepath))))
        (QFileInfo_completeSuffix (QFileInfo_fileName (normalise_file_path fullfilepath)))
        (GetAllFilenames s)). int (dec_value c) < INT_MAX"
    and r: "AddContentFileToFolder MTMaps exists uuid s fullfilepath update_opf mimetype
      = (Inr resource, s')"
  shows "GetRelativePath (heap s' ! resource) \<notin> set (map fst (m_Path2Resource s))"
    and "under (m_FullPathToMainFolder s) (GetFullPath (heap s' ! resource))"
proof -
  let ?main = "m_FullPathToMainFolder s"
  let ?desired = "QFileInfo_fileName (normalise_file_path fullfilepath)"
  let ?fn = "GetUniqueFilenameVersion s ?desired"
  from r have ex: "exists fullfilepath"
    by (auto simp: AddContentFileToFolder_def split: if_splits)
  from r ex obtain opf where opf: "m_OPF s = Some opf"
    by (cases "m_OPF s") (auto simp: AddContentFileToFolder_def Let_def split: prod.splits)
  obtain new_file_path type mt lcppath where
    c: "classify_and_place MTMaps s fullfilepath mimetype = (new_file_path, type, mt, lcppath)"
    by (cases "classify_and_place MTMaps s fullfilepath mimetype") auto
  note R = AddContentFileToFolder_success[where exists = exists and fullfilepath = fullfilepath
      and uuid = uuid and update_opf = update_opf, OF ex opf c]
  from r R have obj: "m_FullFilePath (heap s' ! resource) = new_file_path"
    "m_MainFolder (heap s' ! resource) = ?main"
    by auto
  let ?mt = "if mimetype = []
      then GetMediaTypeFromExtension MTMaps
             (toLower (QFileInfo_suffix (normalise_file_path fullfilepath))) []
      else mimetype"
  let ?resdesc = "GetResourceDescFromMediaType MTMaps ?mt ''Resource''"
  let ?lcp = "QHash_value (m_KeyToLCP s)
      (DetermineFileGroup MTMaps (normalise_file_path fullfilepath) ?mt) []"
  from c have "new_file_path = fst (place_resource s fullfilepath ?resdesc ?fn ?lcp)"
    by (auto simp: classify_and_place_def Let_def split: prod.splits)
  with place_resource_folder[OF meta, of s ?resdesc ?fn ?lcp] obtain folder where
    folder: "under ?main folder" and nfp: "new_file_path = folder @ ''/'' @ ?fn"
    using pl by (auto simp: placed_def)
  from folder have u: "under ?main new_file_path"
    unfolding nfp by (rule under_append)
  then show "under ?main (GetFullPath (heap s' ! resource))"
    by (simp add: GetFullPath_def obj)
  have fresh: "\<not> contains_CaseInsensitive (GetAllFilenames s) ?fn"
    unfolding GetUniqueFilenameVersion_def using below
    by (intro UniqueFilenameVersion_fresh) simp
  have slash: "CHR ''/'' \<notin> set ?fn"
    unfolding GetUniqueFilenameVersion_def
    by (intro UniqueFilenameVersion_no_slash fileName_no_slash)
  have rel: "GetRelativePath (heap s' ! resource) = drop (length ?main + 1) new_file_path"
    using QString_right_under[OF u] by (simp add: GetRelativePath_def obj)
  have name: "QFileInfo_fileName (drop (length ?main + 1) new_file_path) = ?fn"
  proof -
    have "QFileInfo_fileName new_file_path = ?fn"
      unfolding nfp using slash by (rule fileName_append)
    moreover have "new_file_path = ?main @ ''/'' @ drop (length ?main + 1) new_file_path"
      using u by (rule under_decompose)
    ultimately show ?thesis
      using fileName_under[of ?main "drop (length ?main + 1) new_file_path"] by simp
  qed
  show "GetRelativePath (heap s' ! resource) \<notin> set (map fst (m_Path2Resource s))"
  proof
    assume "GetRelativePath (heap s' ! resource) \<in> set (map fst (m_Path2Resource s))"
    then obtain res where "(drop (length ?main + 1) new_file_path, res) \<in> set (m_Path2Resource s)"
      unfolding rel by auto
    from I1_path_entry[OF inv this] obtain t where
      t: "t < length (heap s)" "GetRelativePath (heap s ! t) = drop (length ?main + 1) new_file_path"
        "map_of (m_Resources s) (GetIdentifier (heap s ! t)) = Some t"
      by blast
    from t(3) have mem: "(GetIdentifier (heap s ! t), t) \<in> set (m_Resources s)"
      by (rule map_of_SomeD)
    then have listed: "t \<in> set (GetResourceList s)"
      by (force simp: GetResourceList_def)
    then have ut: "under ?main (GetFullPath (heap s ! t))"
      using pl by (simp add: placed_def)
    have mt: "m_MainFolder (heap s ! t) = ?main"
      using I1_id_entry(3)[OF inv mem] .
    have "GetRelativePath (heap s ! t) = drop (length ?main + 1) (GetFullPath (heap s ! t))"
      using QString_right_under[OF ut] mt by (simp add: GetRelativePath_def GetFullPath_def)
    moreover have "GetFullPath (heap s ! t)
        = ?main @ ''/'' @ drop (length ?main + 1) (GetFullPath (heap s ! t))"
      using ut by (rule under_decompose)
    ultimately have "QFileInfo_fileName (GetFullPath (heap s ! t))
        = QFileInfo_fileName (GetRelativePath (heap s ! t))"
      using fileName_under[of ?main "drop (length ?main + 1) (GetFullPath (heap s ! t))"]
      by simp
    then have "QFileInfo_fileName (GetFullPath (heap s ! t)) = ?fn"
      by (simp only: t(2) name)
    then have "Filename (heap s ! t) = ?fn"
      by (simp add: Filename_def GetFullPath_def)
    then have "?fn \<in> set (GetAllFilenames s)"
      using listed by (force simp: GetAllFilenames_def)
    then have "contains_CaseInsensitive (GetAllFilenames s) ?fn"
      by (simp add: contains_CaseInsensitive_def)
    with fresh show False by simp
  qed
qed

text \<open>A new keeper is placed: the OPF and the seven folders lie under the temporary
  folder.\<close>

lemma placed_new: "placed (FolderKeeper_new temp_folder version uuid)"
  by (simp add: placed_def under_def GetResourceList_def FolderKeeper_new_def
      CreateInfrastructureFiles_def CreateFolderStructure_def CreateKeyToLCPMap_def
      QHash_subscript_def QHash_value_def new_Resource_def GetFullPath_def Let_def)

text \<open>
  So the agreement of the two indices survives every addition outside \<open>META-INF\<close> under a
  new identifier, as long as no numeric suffix among the registered file names is the
  largest \<open>int\<close>: the allocator keeps the book paths apart by itself.
\<close>

lemma I1_AddContentFileToFolder_allocated:
  assumes inv: "I1 s" and pl: "placed s"
    and meta: "\<not> contains fullfilepath FILE_EXCEPTIONS"
    and below: "\<forall>c\<in>set (int_captures
        (remove_digits_at_end (QFileInfo_baseName (QFileInfo_fileName (normalise_file_path fullfilepath))))
        (QFileInfo_completeSuffix (QFileInfo_fileName (normalise_file_path fullfilepath)))
        (GetAllFilenames s)). int (dec_value c) < INT_MAX"
    and r: "AddContentFileToFolder MTMaps exists uuid s fullfilepath update_opf mimetype
      = (Inr resource, s')"
    and fresh_id: "uuid \<notin> set (map fst (m_Resources s))"
  shows "I1 s'"
  using inv r fresh_id AddContentFileToFolder_new_book_path(1)[OF inv pl meta below r]
  by (rule I1_AddContentFileToFolder)


section \<open>Registered resources of a keeper whose indices agree\<close>

text \<open>Where the two indices agree, distinct registered resources have different book
  paths.\<close>

lemma I1_book_paths_differ:
  assumes "I1 s" and "registered s r" and "registered s t" and "r \<noteq> t"
  shows "GetRelativePath (heap s ! t) \<noteq> GetRelativePath (heap s ! r)"
  using registered_entries(2)[OF assms(1,2)] registered_entries(2)[OF assms(1,3)] assms(4)
  by auto

text \<open>Where the two indices agree, \<open>m_Path2Resource\<close> holds a registered resource under
  its book path and under no other key.\<close>

lemma I1_registered_book_path:
  assumes "I1 s" and "registered s r"
  shows "r < length (heap s)"
    and "m_MainFolder (heap s ! r) = m_FullPathToMainFolder s"
    and "distinct (map fst (m_Path2Resource s))"
    and "GetResourceByBookPath s (GetRelativePath (heap s ! r)) = Inr r"
    and "\<forall>bookpath. GetResourceByBookPath s bookpath = Inr r \<longrightarrow>
           bookpath = GetRelativePath (heap s ! r)"
proof -
  note R = registered_entries[OF assms]
  from R(4) show "r < length (heap s)" .
  from R(3) show "m_MainFolder (heap s ! r) = m_FullPathToMainFolder s" .
  from assms(1) show "distinct (map fst (m_Path2Resource s))"
    by (simp add: I1_def)
  from R(2) show "GetResourceByBookPath s (GetRelativePath (heap s ! r)) = Inr r"
    by (simp add: GetResourceByBookPath_Inr)
  show "\<forall>bookpath. GetResourceByBookPath s bookpath = Inr r \<longrightarrow>
           bookpath = GetRelativePath (heap s ! r)"
  proof (intro allI impI)
    fix bookpath
    assume "GetResourceByBookPath s bookpath = Inr r"
    then have "map_of (m_Path2Resource s) bookpath = Some (Some r)"
      by (simp add: GetResourceByBookPath_Inr)
    then have "(bookpath, Some r) \<in> set (m_Path2Resource s)"
      by (rule map_of_SomeD)
    from I1_path_entry[OF assms(1) this] show "bookpath = GetRelativePath (heap s ! r)"
      by auto
  qed
qed


end
